theory Spec2Isabelle
  imports Complex_Main
begin

section \<open>EMAV: the reconstructed-file reader and the validation metrics\<close>

text \<open>
  A shallow embedding of the computational core of \<^verbatim>\<open>emav_app.py\<close>: the block filter
  applied before the pyuff fallback (\<^verbatim>\<open>load_reconstructed_files\<close>), the custom reader
  \<^verbatim>\<open>_parse_reconstructed_unv\<close>, the export transformation of
  \<^verbatim>\<open>save_selected_record\<close>, and the metrics of \<^verbatim>\<open>calculate_validation_metrics\<close>,
  \<^verbatim>\<open>_interpolate_to_common_grid\<close> and \<^verbatim>\<open>_compute_all_metrics\<close>.

  Conventions. Python floats are modelled by \<^typ>\<open>real\<close> and complex floats by
  \<^typ>\<open>complex\<close>: rounding, infinities and NaN are outside the model. Text is a list of
  8-bit characters. An exception is a value \<open>Inl e\<close> of a sum type. Widgets, dialogs,
  console output and file handles are not modelled; a function starts from the data the
  code has in hand after them.
\<close>

subsection \<open>Strings: \<^verbatim>\<open>str.strip\<close>, \<^verbatim>\<open>str.split\<close>\<close>

text \<open>The ASCII characters for which \<^verbatim>\<open>str.isspace\<close> holds: 9 to 13, 28 to 31, and 32.\<close>

definition is_space :: "char \<Rightarrow> bool" where
  "is_space c = (let n = (of_char c :: nat) in (9 \<le> n \<and> n \<le> 13) \<or> (28 \<le> n \<and> n \<le> 32))"

text \<open>\<^verbatim>\<open>s.strip()\<close>: leading and trailing whitespace removed.\<close>

definition strip :: "string \<Rightarrow> string" where
  "strip s = rev (dropWhile is_space (rev (dropWhile is_space s)))"

text \<open>\<^verbatim>\<open>s.rstrip('\r\n')\<close>: trailing carriage returns and line feeds removed.\<close>

definition rstrip_crlf :: "string \<Rightarrow> string" where
  "rstrip_crlf s = rev (dropWhile (\<lambda>c. c = CHR 0x0D \<or> c = CHR 0x0A) (rev s))"

text \<open>
  \<^verbatim>\<open>s.split()\<close>: the maximal runs of non-whitespace characters, in order. The first
  argument of \<open>split_from\<close> is the token being read.
\<close>

fun split_from :: "string \<Rightarrow> string \<Rightarrow> string list" where
  "split_from cur [] = (if cur = [] then [] else [cur])"
| "split_from cur (c # cs) =
     (if is_space c then (if cur = [] then split_from [] cs else cur # split_from [] cs)
      else split_from (cur @ [c]) cs)"

definition split :: "string \<Rightarrow> string list" where
  "split s = split_from [] s"

subsection \<open>The block filter of the pyuff fallback\<close>

text \<open>
  \<^verbatim>\<open>load_reconstructed_files\<close>, after the custom reader has failed:
  \<^verbatim>\<open>
  output_lines = []
  i = 0
  while i < len(lines):
      line = lines[i].strip()
      if line == '151' and i > 0 and lines[i-1].strip() == '-1':
          i += 1
          while i < len(lines):
              if lines[i].strip() == '-1':
                  break
              i += 1
      else:
          output_lines.append(lines[i])
      i += 1
  \<close>
  \<open>skip_block\<close> is the inner loop (it returns the index it stops at), and
  \<open>filter_151_blocks\<close> the outer one; \<open>lines\<close> is what \<^verbatim>\<open>readlines\<close> returned.
\<close>

function skip_block :: "string list \<Rightarrow> nat \<Rightarrow> nat" where
  "skip_block lines i =
     (if i < length lines
      then (if strip (lines ! i) = ''-1'' then i else skip_block lines (i + 1))
      else i)"
  by pat_completeness auto
termination
  by (relation "measure (\<lambda>(lines, i). length lines - i)") auto

declare skip_block.simps [simp del]

lemma skip_block_ge: "i \<le> skip_block lines i"
proof (induction lines i rule: skip_block.induct)
  case (1 lines i)
  show ?case
  proof (cases "i < length lines \<and> strip (lines ! i) \<noteq> ''-1''")
    case True
    with "1.IH" have "i + 1 \<le> skip_block lines (i + 1)" by simp
    moreover from True have "skip_block lines i = skip_block lines (i + 1)"
      by (subst skip_block.simps) simp
    ultimately show ?thesis by simp
  next
    case False
    then show ?thesis by (subst skip_block.simps) auto
  qed
qed

function filter_151_blocks :: "string list \<Rightarrow> nat \<Rightarrow> string list \<Rightarrow> string list" where
  "filter_151_blocks lines i output_lines =
     (if i < length lines
      then (if strip (lines ! i) = ''151'' \<and> i > 0 \<and> strip (lines ! (i - 1)) = ''-1''
            then filter_151_blocks lines (skip_block lines (i + 1) + 1) output_lines
            else filter_151_blocks lines (i + 1) (output_lines @ [lines ! i]))
      else output_lines)"
  by pat_completeness auto
termination
proof (relation "measure (\<lambda>(lines, i, output_lines). length lines - i)")
  show "wf (measure (\<lambda>(lines, i, output_lines). length lines - i))" by simp
next
  fix lines :: "string list" and i :: nat and output_lines :: "string list"
  assume "i < length lines"
  moreover have "i + 1 \<le> skip_block lines (i + 1)" by (rule skip_block_ge)
  ultimately show "((lines, skip_block lines (i + 1) + 1, output_lines), (lines, i, output_lines))
      \<in> measure (\<lambda>(lines, i, output_lines). length lines - i)"
    by simp
next
  fix lines :: "string list" and i :: nat and output_lines :: "string list"
  assume "i < length lines"
  then show "((lines, i + 1, output_lines @ [lines ! i]), (lines, i, output_lines))
      \<in> measure (\<lambda>(lines, i, output_lines). length lines - i)"
    by simp
qed

declare filter_151_blocks.simps [simp del]

text \<open>
  The declarative reading of the filter: line \<open>k\<close> is dropped when some marker line
  \<open>m \<le> k\<close> (a line \<^verbatim>\<open>151\<close> right after a line \<^verbatim>\<open>-1\<close>) has no line \<^verbatim>\<open>-1\<close>
  strictly between \<open>m\<close> and \<open>k\<close>. The dropped lines of one marker are therefore the marker
  line, the lines after it, and the first line \<^verbatim>\<open>-1\<close> that follows (or everything to
  the end of the text when there is none).
\<close>

definition in_151_block :: "string list \<Rightarrow> nat \<Rightarrow> bool" where
  "in_151_block lines k =
     (\<exists>m \<in> set [1..<Suc k]. strip (lines ! m) = ''151'' \<and> strip (lines ! (m - 1)) = ''-1'' \<and>
        (\<forall>j \<in> set [Suc m..<k]. strip (lines ! j) \<noteq> ''-1''))"

text \<open>
  The narrower reading, which leaves the closing line out: line \<open>k\<close> is the marker line or a
  line after it, with no line \<^verbatim>\<open>-1\<close> from the line after the marker up to \<open>k\<close> itself.
\<close>

definition in_151_body :: "string list \<Rightarrow> nat \<Rightarrow> bool" where
  "in_151_body lines k =
     (\<exists>m \<in> set [1..<Suc k]. strip (lines ! m) = ''151'' \<and> strip (lines ! (m - 1)) = ''-1'' \<and>
        (\<forall>j \<in> set [Suc m..<Suc k]. strip (lines ! j) \<noteq> ''-1''))"

text \<open>
  The invariant of the outer loop at index \<open>i\<close>: every marker line before \<open>i\<close> has met its
  closing line \<^verbatim>\<open>-1\<close> before \<open>i\<close>.
\<close>

definition settled :: "string list \<Rightarrow> nat \<Rightarrow> bool" where
  "settled lines i =
     (\<forall>m. 0 < m \<and> m < i \<and> m < length lines \<and> strip (lines ! m) = ''151'' \<and> strip (lines ! (m - 1)) = ''-1''
        \<longrightarrow> (\<exists>j. m < j \<and> j < i \<and> j < length lines \<and> strip (lines ! j) = ''-1''))"


subsection \<open>Python values\<close>

text \<open>
  The exceptions the modelled code can raise. The four \<^verbatim>\<open>ValueError\<close>s that the reader
  raises itself keep their message as the constructor's name; \<open>Value_Error\<close> is the
  \<^verbatim>\<open>ValueError\<close> of \<^verbatim>\<open>int\<close>, \<^verbatim>\<open>float\<close> and the numeric libraries.
\<close>

datatype error =
    No_Dataset_58
  | Invalid_Data_Char_Line
  | Data_Not_In_First_100
  | Data_Section_Not_Located
  | Value_Error
  | Index_Error
  | Key_Error
  | Attribute_Error
  | Not_Complex_FRF

text \<open>
  The numpy arrays that reach the modelled code: one-dimensional real or complex arrays,
  and two-dimensional real arrays. \<open>RealMat c rows\<close> has shape \<open>(length rows, c)\<close>; the
  column count is kept apart because an array may have no row.
\<close>

datatype ndarray =
    RealVec "real list"
  | ComplexVec "complex list"
  | RealMat nat "real list list"

datatype pyval = VInt int | VReal real | VStr string | VArr ndarray

text \<open>A record of the application is a Python \<^verbatim>\<open>dict\<close> with string keys.\<close>

type_synonym pydict = "string \<rightharpoonup> pyval"

subsection \<open>The custom reader \<^verbatim>\<open>_parse_reconstructed_unv\<close>\<close>

text \<open>
  The built-ins \<^verbatim>\<open>int\<close> and \<^verbatim>\<open>float\<close> are parameters \<open>to_int\<close> and \<open>to_float\<close> of the
  model: \<open>None\<close> stands for their \<^verbatim>\<open>ValueError\<close>. Every statement below holds for all
  such readers.

  The marker search:
  \<^verbatim>\<open>
  while i < len(lines):
      if lines[i].strip() == '-1' and i + 1 < len(lines) and lines[i+1].strip() == '58':
          dataset_found = True
          i += 2
          break
      i += 1
  if not dataset_found:
      raise ValueError("No Dataset 58 found in file")
  \<close>
\<close>

function find_dataset_58 :: "string list \<Rightarrow> nat \<Rightarrow> error + nat" where
  "find_dataset_58 lines i =
     (if i < length lines
      then (if strip (lines ! i) = ''-1'' \<and> i + 1 < length lines \<and> strip (lines ! (i + 1)) = ''58''
            then Inr (i + 2)
            else find_dataset_58 lines (i + 1))
      else Inl No_Dataset_58)"
  by pat_completeness auto
termination
  by (relation "measure (\<lambda>(lines, i). length lines - i)") auto

declare find_dataset_58.simps [simp del]

text \<open>
  The two header lines. \<^verbatim>\<open>lines[i]\<close> raises \<^verbatim>\<open>IndexError\<close> past the end of the text. The
  result is \<open>(data_type, num_points, spacing_type, x_min, x_increment_or_max)\<close>.
  \<^verbatim>\<open>
  header_line1 = lines[i].split()
  i += 1
  data_char_line = lines[i].split()
  i += 1
  if len(data_char_line) >= 3:
      data_type = int(data_char_line[0])
      num_points = int(data_char_line[1])
      spacing_type = int(data_char_line[2])
  else:
      raise ValueError(f"Invalid data characteristic line: {data_char_line}")
  if len(data_char_line) >= 6:
      x_min = float(data_char_line[3])
      x_increment_or_max = float(data_char_line[4])
  else:
      x_min = 0.0
      x_increment_or_max = 1.0
  \<close>
\<close>

definition read_header ::
  "(string \<Rightarrow> int option) \<Rightarrow> (string \<Rightarrow> real option) \<Rightarrow> string list \<Rightarrow> nat
     \<Rightarrow> error + (int \<times> int \<times> int \<times> real \<times> real)" where
  "read_header to_int to_float lines i =
     (if length lines \<le> i + 1 then Inl Index_Error
      else let data_char_line = split (lines ! (i + 1)) in
        if length data_char_line \<ge> 3 then
          (case to_int (data_char_line ! 0) of None \<Rightarrow> Inl Value_Error | Some data_type \<Rightarrow>
           case to_int (data_char_line ! 1) of None \<Rightarrow> Inl Value_Error | Some num_points \<Rightarrow>
           case to_int (data_char_line ! 2) of None \<Rightarrow> Inl Value_Error | Some spacing_type \<Rightarrow>
             if length data_char_line \<ge> 6 then
               (case to_float (data_char_line ! 3) of None \<Rightarrow> Inl Value_Error | Some x_min \<Rightarrow>
                case to_float (data_char_line ! 4) of None \<Rightarrow> Inl Value_Error
                | Some x_increment_or_max \<Rightarrow>
                    Inr (data_type, num_points, spacing_type, x_min, x_increment_or_max))
             else Inr (data_type, num_points, spacing_type, 0, 1))
        else Inl Invalid_Data_Char_Line)"

text \<open>
  The search for the first data line, from the line after the four axis lines:
  \<^verbatim>\<open>
  while i < len(lines):
      line = lines[i].strip()
      if 'E' in line or 'e' in line:
          try:
              parts = line.split()
              if len(parts) >= 2:
                  f1 = float(parts[0])
                  f2 = float(parts[1])
                  data_start_found = True
                  break
          except:
              pass
      i += 1
      if i > 100:
          raise ValueError("Could not find data section in first 100 lines")
  if not data_start_found:
      raise ValueError("Could not locate data section")
  \<close>
\<close>

definition is_data_line :: "(string \<Rightarrow> real option) \<Rightarrow> string \<Rightarrow> bool" where
  "is_data_line to_float line =
     ((CHR ''E'' \<in> set line \<or> CHR ''e'' \<in> set line) \<and>
      (let parts = split line
       in length parts \<ge> 2 \<and> to_float (parts ! 0) \<noteq> None \<and> to_float (parts ! 1) \<noteq> None))"

function find_data_start :: "(string \<Rightarrow> real option) \<Rightarrow> string list \<Rightarrow> nat \<Rightarrow> error + nat" where
  "find_data_start to_float lines i =
     (if i < length lines
      then (if is_data_line to_float (strip (lines ! i)) then Inr i
            else if i + 1 > 100 then Inl Data_Not_In_First_100
            else find_data_start to_float lines (i + 1))
      else Inl Data_Section_Not_Located)"
  by pat_completeness auto
termination
  by (relation "measure (\<lambda>(to_float, lines, i). length lines - i)") auto

declare find_data_start.simps [simp del]

text \<open>
  The accumulation of the values; a token that \<^verbatim>\<open>float\<close> rejects is skipped.
  \<^verbatim>\<open>
  data_values = []
  lines_parsed = 0
  while i < len(lines) and len(data_values) < num_points * 2:
      line = lines[i].strip()
      if line == '-1':
          break
      if not line:
          i += 1
          continue
      parts = line.split()
      for part in parts:
          try:
              val = float(part)
              data_values.append(val)
          except ValueError:
              pass
      i += 1
      lines_parsed += 1
      if lines_parsed > num_points * 3:
          break
  \<close>
\<close>

function collect_values ::
  "(string \<Rightarrow> real option) \<Rightarrow> string list \<Rightarrow> int \<Rightarrow> nat \<Rightarrow> real list \<Rightarrow> nat \<Rightarrow> real list" where
  "collect_values to_float lines num_points i data_values lines_parsed =
     (if i < length lines \<and> int (length data_values) < num_points * 2
      then (if strip (lines ! i) = ''-1'' then data_values
            else if strip (lines ! i) = [] then
              collect_values to_float lines num_points (i + 1) data_values lines_parsed
            else if int (lines_parsed + 1) > num_points * 3 then
              data_values @ List.map_filter to_float (split (strip (lines ! i)))
            else
              collect_values to_float lines num_points (i + 1)
                (data_values @ List.map_filter to_float (split (strip (lines ! i))))
                (lines_parsed + 1))
      else data_values)"
  by pat_completeness auto
termination
  by (relation "measure (\<lambda>(to_float, lines, num_points, i, data_values, lines_parsed). length lines - i)")
    auto

declare collect_values.simps [simp del]

text \<open>
  \<^verbatim>\<open>np.linspace(start, stop, num)\<close> for \<open>num \<ge> 1\<close>, and
  \<^verbatim>\<open>np.arange(num) * step + start\<close>.
\<close>

definition linspace :: "real \<Rightarrow> real \<Rightarrow> nat \<Rightarrow> real list" where
  "linspace start stop num =
     (if num = 1 then [start]
      else map (\<lambda>k. start + real k * ((stop - start) / real (num - 1))) [0..<num])"

definition arange_axis :: "real \<Rightarrow> real \<Rightarrow> nat \<Rightarrow> real list" where
  "arange_axis start step num = map (\<lambda>k. real k * step + start) [0..<num]"

text \<open>\<^verbatim>\<open>np.array(values).reshape(n, 2)\<close> on a list of \<open>2 * n\<close> values: consecutive pairs.\<close>

fun reshape2 :: "real list \<Rightarrow> real list list" where
  "reshape2 (a # b # vs) = [a, b] # reshape2 vs"
| "reshape2 vs = []"

text \<open>
  The end of the reader: padding, truncation and reshaping of the values, the axis, and
  the record.
  \<^verbatim>\<open>
  if len(data_values) < num_points * 2:
      while len(data_values) < num_points * 2:
          data_values.append(0.0)
  data_array = np.array(data_values[:num_points * 2]).reshape(num_points, 2)
  if spacing_type == 1:
      if x_increment_or_max > x_min + 1:
          x_data = np.linspace(x_min, x_increment_or_max, num_points)
      else:
          x_data = np.arange(num_points) * x_increment_or_max + x_min
  else:
      x_data = np.arange(num_points) * x_increment_or_max + x_min
  result = {'type': 58, 'x': x_data, 'data': data_array,
            'data_type': data_type, 'num_points': num_points}
  print(f"Successfully parsed: {num_points} points, x range: [{x_data[0]:.2f}, {x_data[-1]:.2f}]")
  print(f"Data range: [{np.min(data_array):.6e}, {np.max(data_array):.6e}]")
  return result
  \<close>
  With \<open>num_points \<le> 0\<close> no record is returned: \<^verbatim>\<open>reshape\<close> or \<^verbatim>\<open>linspace\<close> rejects the
  negative count, or else the axis is empty and \<^verbatim>\<open>x_data[0]\<close> in the report line raises
  \<^verbatim>\<open>IndexError\<close>. The model returns \<open>Index_Error\<close> for all of these.
\<close>

definition pad_values :: "int \<Rightarrow> real list \<Rightarrow> real list" where
  "pad_values num_points data_values =
     (if int (length data_values) < num_points * 2
      then data_values @ replicate (nat (num_points * 2) - length data_values) 0
      else data_values)"

definition frequency_axis :: "int \<Rightarrow> real \<Rightarrow> real \<Rightarrow> int \<Rightarrow> real list" where
  "frequency_axis spacing_type x_min x_increment_or_max num_points =
     (if spacing_type = 1
      then (if x_increment_or_max > x_min + 1
            then linspace x_min x_increment_or_max (nat num_points)
            else arange_axis x_min x_increment_or_max (nat num_points))
      else arange_axis x_min x_increment_or_max (nat num_points))"

definition build_result :: "int \<Rightarrow> int \<Rightarrow> int \<Rightarrow> real \<Rightarrow> real \<Rightarrow> real list \<Rightarrow> error + pydict" where
  "build_result data_type num_points spacing_type x_min x_increment_or_max data_values =
     (if num_points \<le> 0 then Inl Index_Error
      else Inr [''type'' \<mapsto> VInt 58,
                ''x'' \<mapsto> VArr (RealVec (frequency_axis spacing_type x_min x_increment_or_max num_points)),
                ''data'' \<mapsto> VArr (RealMat 2
                   (reshape2 (take (nat (num_points * 2)) (pad_values num_points data_values)))),
                ''data_type'' \<mapsto> VInt data_type,
                ''num_points'' \<mapsto> VInt num_points])"

text \<open>
  The whole reader; \<open>raw\<close> is what \<^verbatim>\<open>f.readlines()\<close> returned, and the four axis lines
  are skipped without being read (\<^verbatim>\<open>i += axis_lines_to_skip\<close>).
\<close>

definition parse_reconstructed_unv ::
  "(string \<Rightarrow> int option) \<Rightarrow> (string \<Rightarrow> real option) \<Rightarrow> string list \<Rightarrow> error + pydict" where
  "parse_reconstructed_unv to_int to_float raw =
     (let lines = map rstrip_crlf raw in
      case find_dataset_58 lines 0 of Inl e \<Rightarrow> Inl e | Inr i \<Rightarrow>
     (case read_header to_int to_float lines i of Inl e \<Rightarrow> Inl e
      | Inr (data_type, num_points, spacing_type, x_min, x_increment_or_max) \<Rightarrow>
     (case find_data_start to_float lines (i + 2 + 4) of Inl e \<Rightarrow> Inl e | Inr start \<Rightarrow>
        build_result data_type num_points spacing_type x_min x_increment_or_max
          (collect_values to_float lines num_points start [] 0))))"

text \<open>
  Readers of plain decimal notation (sign, digits, point, exponent), used to run the model
  on concrete texts. They accept a part of what \<^verbatim>\<open>int\<close> and \<^verbatim>\<open>float\<close> accept.
\<close>

definition digit_of :: "char \<Rightarrow> nat option" where
  "digit_of c = (let n = (of_char c :: nat) in if 48 \<le> n \<and> n \<le> 57 then Some (n - 48) else None)"

fun digits_value :: "nat \<Rightarrow> string \<Rightarrow> nat option" where
  "digits_value acc [] = Some acc"
| "digits_value acc (c # cs) =
     (case digit_of c of None \<Rightarrow> None | Some d \<Rightarrow> digits_value (10 * acc + d) cs)"

definition decimal_int :: "string \<Rightarrow> int option" where
  "decimal_int s =
     (case s of [] \<Rightarrow> None
      | c # cs \<Rightarrow>
          if c = CHR ''-'' then (if cs = [] then None else map_option (\<lambda>n. - int n) (digits_value 0 cs))
          else if c = CHR ''+'' then (if cs = [] then None else map_option int (digits_value 0 cs))
          else map_option int (digits_value 0 s))"

definition decimal_unsigned :: "string \<Rightarrow> real option" where
  "decimal_unsigned s =
     (let ip = takeWhile (\<lambda>c. c \<noteq> CHR ''.'') s;
          fp = drop 1 (dropWhile (\<lambda>c. c \<noteq> CHR ''.'') s)
      in if ip = [] \<and> fp = [] then None
         else map_option (\<lambda>n. real n / 10 ^ length fp) (digits_value 0 (ip @ fp)))"

definition decimal_mantissa :: "string \<Rightarrow> real option" where
  "decimal_mantissa s =
     (case s of [] \<Rightarrow> None
      | c # cs \<Rightarrow>
          if c = CHR ''-'' then map_option uminus (decimal_unsigned cs)
          else if c = CHR ''+'' then decimal_unsigned cs
          else decimal_unsigned s)"

definition decimal_float :: "string \<Rightarrow> real option" where
  "decimal_float s =
     (let is_e = (\<lambda>c. c = CHR ''e'' \<or> c = CHR ''E'');
          m = takeWhile (\<lambda>c. \<not> is_e c) s;
          r = dropWhile (\<lambda>c. \<not> is_e c) s
      in case decimal_mantissa m of None \<Rightarrow> None
         | Some v \<Rightarrow>
             if r = [] then Some v
             else (case decimal_int (tl r) of None \<Rightarrow> None
                   | Some e \<Rightarrow> Some (if e \<ge> 0 then v * 10 ^ nat e else v / 10 ^ nat (- e))))"


subsection \<open>The export transformation of \<^verbatim>\<open>save_selected_record\<close>\<close>

text \<open>
  \<^verbatim>\<open>
  if self.testlab_file_type == 'unv' and original_record.get('type') == 58:
      y_data_raw = original_record['data']
      if y_data_raw.ndim == 2 and y_data_raw.shape[1] >= 2:
          complex_y = y_data_raw[:, 0] + 1j * y_data_raw[:, 1]
          linear_magnitude = np.abs(complex_y)
          new_record = original_record.copy()
          save_data = np.zeros((len(linear_magnitude), 2))
          save_data[:, 0] = linear_magnitude
          new_record['data'] = save_data
          new_record['data_type'] = 2
          new_record['z_def_type'] = 0
          new_record['num_values_per_point'] = 2
          new_record['ylabel'] = 'AMPLITUDE'
          uff_out.write_sets(new_record)
      else:
          uff_out.write_sets(original_record)
  elif self.testlab_file_type == 'mat':
      messagebox.showwarning("Not Implemented", ...)
  \<close>
  The model returns the record handed to \<^verbatim>\<open>write_sets\<close>, or \<open>None\<close> when nothing is
  written. \<^verbatim>\<open>58 == 58.0\<close> holds in Python.
\<close>

definition linear_magnitude :: "real list list \<Rightarrow> real list" where
  "linear_magnitude rows =
     map (\<lambda>r. cmod (complex_of_real (r ! 0) + \<i> * complex_of_real (r ! 1))) rows"

definition save_selected_record :: "string \<Rightarrow> pydict \<Rightarrow> error + pydict option" where
  "save_selected_record testlab_file_type original_record =
     (if testlab_file_type = ''unv'' \<and>
         (original_record ''type'' = Some (VInt 58) \<or> original_record ''type'' = Some (VReal 58))
      then (case original_record ''data'' of
              None \<Rightarrow> Inl Key_Error
            | Some (VArr (RealMat c rows)) \<Rightarrow>
                if c \<ge> 2
                then Inr (Some (original_record
                       (''data'' \<mapsto> VArr (RealMat 2 (map (\<lambda>m. [m, 0]) (linear_magnitude rows))),
                        ''data_type'' \<mapsto> VInt 2,
                        ''z_def_type'' \<mapsto> VInt 0,
                        ''num_values_per_point'' \<mapsto> VInt 2,
                        ''ylabel'' \<mapsto> VStr ''AMPLITUDE'')))
                else Inr (Some original_record)
            | Some (VArr _) \<Rightarrow> Inr (Some original_record)
            | Some _ \<Rightarrow> Inl Attribute_Error)
      else Inr None)"

subsection \<open>Interpolation onto the common grid\<close>

text \<open>
  Modelled from the spec: \<^verbatim>\<open>scipy.interpolate.interp1d\<close> with \<^verbatim>\<open>kind='linear'\<close>,
  \<^verbatim>\<open>bounds_error=False\<close>, \<^verbatim>\<open>fill_value=0\<close> is a library routine and not under the
  sources. The spec has it interpolate linearly between the source samples, and return
  exactly 0 at a point outside \<open>[min, max]\<close> of the source frequencies. The source
  samples are taken in increasing order of frequency; \<open>lin_interp\<close> walks the sorted
  samples to the first segment that holds the point.
\<close>

fun lin_interp :: "(real \<times> real) list \<Rightarrow> real \<Rightarrow> real" where
  "lin_interp ((x0, y0) # (x1, y1) # ps) t =
     (if t \<le> x1 then y0 + (y1 - y0) * (t - x0) / (x1 - x0)
      else lin_interp ((x1, y1) # ps) t)"
| "lin_interp [(x0, y0)] t = y0"
| "lin_interp [] t = 0"

definition interp1d :: "real list \<Rightarrow> real list \<Rightarrow> real \<Rightarrow> real" where
  "interp1d x y x_new =
     (let ps = sort_key fst (zip x y)
      in if ps = [] \<or> x_new < fst (hd ps) \<or> fst (last ps) < x_new then 0
         else lin_interp ps x_new)"

text \<open>
  \<^verbatim>\<open>
  def _interpolate_to_common_grid(self, x_source, y_source_complex, x_target):
      real_interp = interp1d(x_source, y_source_complex.real, kind='linear',
                             bounds_error=False, fill_value=0)
      imag_interp = interp1d(x_source, y_source_complex.imag, kind='linear',
                             bounds_error=False, fill_value=0)
      return real_interp(x_target) + 1j * imag_interp(x_target)
  \<close>
\<close>

definition interpolate_to_common_grid :: "real list \<Rightarrow> complex list \<Rightarrow> real list \<Rightarrow> complex list" where
  "interpolate_to_common_grid x_source y_source_complex x_target =
     (let real_interp = interp1d x_source (map Re y_source_complex);
          imag_interp = interp1d x_source (map Im y_source_complex)
      in map (\<lambda>t. complex_of_real (real_interp t) + \<i> * complex_of_real (imag_interp t)) x_target)"

subsection \<open>The metrics of \<^verbatim>\<open>_compute_all_metrics\<close>\<close>

text \<open>
  An entry of the result dictionary is a float or \<^verbatim>\<open>None\<close>. With finite inputs the only
  NaN the code can store is the one \<^verbatim>\<open>r2_score\<close> returns for fewer than two samples, so
  it has a constructor of its own.
\<close>

datatype metric = Number real | NaN | Unavailable

record peak_comparison =
  freq_original :: real
  freq_reconstructed :: real
  freq_error :: real
  freq_error_pct :: real
  mag_original :: real
  mag_reconstructed :: real
  mag_error :: real
  mag_error_pct :: real

record results =
  RMSE :: real
  R2 :: metric
  MAE :: real
  FRAC :: metric
  peak_analysis :: "peak_comparison list"
  n_peaks_original :: nat
  n_peaks_reconstructed :: nat
  n_peaks_matched :: nat

definition np_mean :: "real list \<Rightarrow> real" where
  "np_mean xs = sum_list xs / real (length xs)"

text \<open>\<^verbatim>\<open>np.vdot(a, b)\<close>: the first argument is conjugated.\<close>

definition vdot :: "complex list \<Rightarrow> complex list \<Rightarrow> complex" where
  "vdot a b = sum_list (map2 (\<lambda>x y. cnj x * y) a b)"

text \<open>\<^verbatim>\<open>np.argmin\<close>: the first index of the least entry.\<close>

fun argmin :: "real list \<Rightarrow> nat" where
  "argmin (x # y # ys) = (if x \<le> (y # ys) ! argmin (y # ys) then 0 else Suc (argmin (y # ys)))"
| "argmin xs = 0"

text \<open>
  \<^verbatim>\<open>sklearn.metrics.r2_score(y_true, y_pred)\<close>, a library routine, after its documentation:
  one minus the residual sum of squares over the total sum of squares about the mean of
  \<open>y_true\<close>; when the total is zero the score is 1 for a zero residual and 0 otherwise
  (\<^verbatim>\<open>force_finite\<close>); fewer than two samples give NaN.
\<close>

definition ss_res :: "real list \<Rightarrow> real list \<Rightarrow> real" where
  "ss_res y_true y_pred = sum_list (map2 (\<lambda>t p. (t - p)\<^sup>2) y_true y_pred)"

definition ss_tot :: "real list \<Rightarrow> real" where
  "ss_tot y_true = sum_list (map (\<lambda>t. (t - np_mean y_true)\<^sup>2) y_true)"

definition r2_score :: "real list \<Rightarrow> real list \<Rightarrow> metric" where
  "r2_score y_true y_pred =
     (if length y_true < 2 then NaN
      else if ss_tot y_true \<noteq> 0 then Number (1 - ss_res y_true y_pred / ss_tot y_true)
      else if ss_res y_true y_pred \<noteq> 0 then Number 0
      else Number 1)"

text \<open>
  The loop over the peaks of the first signal. An index past the end of an array raises
  \<^verbatim>\<open>IndexError\<close>.
  \<^verbatim>\<open>
  for pk_idx in peaks_orig:
      f_orig = freq[pk_idx]
      mag_orig_pk = mag_orig[pk_idx]
      if len(peaks_recon) > 0:
          freq_diffs = np.abs(freq[peaks_recon] - f_orig)
          nearest_idx = np.argmin(freq_diffs)
          if freq_diffs[nearest_idx] < freq_tolerance:
              pk_recon_idx = peaks_recon[nearest_idx]
              f_recon = freq[pk_recon_idx]
              mag_recon_pk = mag_recon[pk_recon_idx]
              peak_comparisons.append({
                  'freq_original': f_orig,
                  'freq_reconstructed': f_recon,
                  'freq_error': f_recon - f_orig,
                  'freq_error_pct': 100 * (f_recon - f_orig) / f_orig if f_orig != 0 else 0,
                  'mag_original': mag_orig_pk,
                  'mag_reconstructed': mag_recon_pk,
                  'mag_error': mag_recon_pk - mag_orig_pk,
                  'mag_error_pct': 100 * (mag_recon_pk - mag_orig_pk) / mag_orig_pk
                                   if mag_orig_pk != 0 else 0})
  \<close>
\<close>

definition compare_peaks :: "real \<Rightarrow> real \<Rightarrow> real \<Rightarrow> real \<Rightarrow> peak_comparison" where
  "compare_peaks f_orig mag_orig_pk f_recon mag_recon_pk =
     \<lparr>freq_original = f_orig,
      freq_reconstructed = f_recon,
      freq_error = f_recon - f_orig,
      freq_error_pct = (if f_orig \<noteq> 0 then 100 * (f_recon - f_orig) / f_orig else 0),
      mag_original = mag_orig_pk,
      mag_reconstructed = mag_recon_pk,
      mag_error = mag_recon_pk - mag_orig_pk,
      mag_error_pct =
        (if mag_orig_pk \<noteq> 0 then 100 * (mag_recon_pk - mag_orig_pk) / mag_orig_pk else 0)\<rparr>"

fun match_peaks ::
  "real list \<Rightarrow> real list \<Rightarrow> real list \<Rightarrow> nat list \<Rightarrow> real \<Rightarrow> nat list
     \<Rightarrow> error + peak_comparison list" where
  "match_peaks freq mag_orig mag_recon peaks_recon freq_tolerance [] = Inr []"
| "match_peaks freq mag_orig mag_recon peaks_recon freq_tolerance (pk_idx # rest) =
     (if pk_idx \<ge> length freq \<or> pk_idx \<ge> length mag_orig then Inl Index_Error
      else if length peaks_recon > 0 then
        (if \<exists>q \<in> set peaks_recon. q \<ge> length freq then Inl Index_Error
         else let f_orig = freq ! pk_idx;
                  freq_diffs = map (\<lambda>q. \<bar>freq ! q - f_orig\<bar>) peaks_recon;
                  nearest_idx = argmin freq_diffs
              in if freq_diffs ! nearest_idx < freq_tolerance then
                   (if peaks_recon ! nearest_idx \<ge> length mag_recon then Inl Index_Error
                    else (case match_peaks freq mag_orig mag_recon peaks_recon freq_tolerance rest of
                            Inl e \<Rightarrow> Inl e
                          | Inr cs \<Rightarrow>
                              Inr (compare_peaks f_orig (mag_orig ! pk_idx)
                                     (freq ! (peaks_recon ! nearest_idx))
                                     (mag_recon ! (peaks_recon ! nearest_idx)) # cs)))
                 else match_peaks freq mag_orig mag_recon peaks_recon freq_tolerance rest)
      else match_peaks freq mag_orig mag_recon peaks_recon freq_tolerance rest)"

text \<open>
  \<^verbatim>\<open>scipy.signal.find_peaks(x, prominence=p)\<close> is the parameter \<open>find_peaks\<close>: it returns
  the indices of the peaks, in increasing order. What is stated below holds for every
  such routine.
  \<^verbatim>\<open>
  def _compute_all_metrics(self, freq, y_original, y_reconstructed):
      mag_orig = np.abs(y_original)
      mag_recon = np.abs(y_reconstructed)
      error = mag_orig - mag_recon
      rmse = np.sqrt(np.mean(error**2))
      r2 = r2_score(mag_orig, mag_recon)
      mae = np.mean(np.abs(error))
      numerator = np.abs(np.vdot(y_original, y_reconstructed))**2
      denom_a = np.vdot(y_original, y_original).real
      denom_b = np.vdot(y_reconstructed, y_reconstructed).real
      if denom_a > 0 and denom_b > 0:
          results['FRAC'] = numerator / (denom_a * denom_b)
      else:
          results['FRAC'] = None
      prominence_threshold = 0.1 * np.max(mag_orig)
      peaks_orig, _ = find_peaks(mag_orig, prominence=prominence_threshold)
      peaks_recon, _ = find_peaks(mag_recon, prominence=prominence_threshold)
      freq_tolerance = 0.05 * (freq[-1] - freq[0])
      ...
      results['n_peaks_original'] = len(peaks_orig)
      results['n_peaks_reconstructed'] = len(peaks_recon)
      results['n_peaks_matched'] = len(peak_comparisons)
  \<close>
  Signals of different lengths, and empty signals, end in a \<^verbatim>\<open>ValueError\<close> of numpy or
  of \<^verbatim>\<open>r2_score\<close>; an empty \<open>freq\<close> in the \<^verbatim>\<open>IndexError\<close> of \<^verbatim>\<open>freq[-1]\<close>.
\<close>

definition compute_all_metrics ::
  "(real list \<Rightarrow> real \<Rightarrow> nat list) \<Rightarrow> real list \<Rightarrow> complex list \<Rightarrow> complex list
     \<Rightarrow> error + results" where
  "compute_all_metrics find_peaks freq y_original y_reconstructed =
     (let mag_orig = map cmod y_original;
          mag_recon = map cmod y_reconstructed
      in if length mag_orig \<noteq> length mag_recon \<or> mag_orig = [] then Inl Value_Error
         else
           let error = map2 (\<lambda>a b. a - b) mag_orig mag_recon;
               rmse = sqrt (np_mean (map (\<lambda>e. e\<^sup>2) error));
               r2 = r2_score mag_orig mag_recon;
               mae = np_mean (map abs error);
               numerator = (cmod (vdot y_original y_reconstructed))\<^sup>2;
               denom_a = Re (vdot y_original y_original);
               denom_b = Re (vdot y_reconstructed y_reconstructed);
               frac = (if denom_a > 0 \<and> denom_b > 0
                       then Number (numerator / (denom_a * denom_b)) else Unavailable);
               prominence_threshold = 0.1 * Max (set mag_orig);
               peaks_orig = find_peaks mag_orig prominence_threshold;
               peaks_recon = find_peaks mag_recon prominence_threshold
           in if freq = [] then Inl Index_Error
              else
                (case match_peaks freq mag_orig mag_recon peaks_recon
                        (0.05 * (last freq - hd freq)) peaks_orig of
                   Inl e \<Rightarrow> Inl e
                 | Inr peak_comparisons \<Rightarrow>
                     Inr \<lparr>RMSE = rmse, R2 = r2, MAE = mae, FRAC = frac,
                          peak_analysis = peak_comparisons,
                          n_peaks_original = length peaks_orig,
                          n_peaks_reconstructed = length peaks_recon,
                          n_peaks_matched = length peak_comparisons\<rparr>))"

text \<open>
  The reconstructed peak the loop pairs with the peak \<open>pk_idx\<close>:
  \<^verbatim>\<open>peaks_recon[np.argmin(np.abs(freq[peaks_recon] - freq[pk_idx]))]\<close>.
\<close>

definition nearest_peak :: "real list \<Rightarrow> nat list \<Rightarrow> nat \<Rightarrow> nat" where
  "nearest_peak freq peaks_recon pk_idx =
     peaks_recon ! argmin (map (\<lambda>q. \<bar>freq ! q - freq ! pk_idx\<bar>) peaks_recon)"

subsection \<open>\<^verbatim>\<open>calculate_validation_metrics\<close>\<close>

text \<open>
  From the arrays of the selected Testlab record and the selected reconstructed record:
  \<^verbatim>\<open>
  if np.iscomplexobj(y_testlab_raw):
      y_testlab_complex = y_testlab_raw
  elif y_testlab_raw.ndim == 2 and y_testlab_raw.shape[1] >= 2:
      y_testlab_complex = y_testlab_raw[:, 0] + 1j * y_testlab_raw[:, 1]
  else:
      messagebox.showerror("Validation Error", "Selected testlab record is not a complex FRF.")
      return
  ...
  x_recon = recon_record['x']
  y_recon_raw = recon_record['data']
  if y_recon_raw.ndim == 2:
      y_recon_amplitude = y_recon_raw[:, 0]
  else:
      y_recon_amplitude = y_recon_raw
  y_testlab_interp = self._interpolate_to_common_grid(x_testlab, y_testlab_complex, x_recon)
  y_recon_complex = y_recon_amplitude + 0j
  results = self._compute_all_metrics(x_recon, y_recon_complex, y_testlab_interp)
  \<close>
\<close>

definition testlab_complex :: "ndarray \<Rightarrow> error + complex list" where
  "testlab_complex y_testlab_raw =
     (case y_testlab_raw of
        ComplexVec zs \<Rightarrow> Inr zs
      | RealMat c rows \<Rightarrow>
          if c \<ge> 2
          then Inr (map (\<lambda>r. complex_of_real (r ! 0) + \<i> * complex_of_real (r ! 1)) rows)
          else Inl Not_Complex_FRF
      | RealVec v \<Rightarrow> Inl Not_Complex_FRF)"

definition recon_complex :: "ndarray \<Rightarrow> error + complex list" where
  "recon_complex y_recon_raw =
     (case y_recon_raw of
        RealMat c rows \<Rightarrow>
          if c = 0 then Inl Index_Error
          else Inr (map (\<lambda>r. complex_of_real (r ! 0) + 0) rows)
      | RealVec v \<Rightarrow> Inr (map (\<lambda>a. complex_of_real a + 0) v)
      | ComplexVec zs \<Rightarrow> Inr (map (\<lambda>z. z + 0) zs))"

definition calculate_validation_metrics ::
  "(real list \<Rightarrow> real \<Rightarrow> nat list) \<Rightarrow> real list \<Rightarrow> ndarray \<Rightarrow> pydict \<Rightarrow> error + results" where
  "calculate_validation_metrics find_peaks x_testlab y_testlab_raw recon_record =
     (case testlab_complex y_testlab_raw of Inl e \<Rightarrow> Inl e | Inr y_testlab_complex \<Rightarrow>
     (case recon_record ''x'' of None \<Rightarrow> Inl Key_Error
      | Some (VArr (RealVec x_recon)) \<Rightarrow>
         (case recon_record ''data'' of None \<Rightarrow> Inl Key_Error
          | Some (VArr y_recon_raw) \<Rightarrow>
             (case recon_complex y_recon_raw of Inl e \<Rightarrow> Inl e
              | Inr y_recon_complex \<Rightarrow>
                  compute_all_metrics find_peaks x_recon y_recon_complex
                    (interpolate_to_common_grid x_testlab y_testlab_complex x_recon))
          | Some _ \<Rightarrow> Inl Attribute_Error)
      | Some _ \<Rightarrow> Inl Value_Error))"

text \<open>
  A plain peak detector, used to run the metrics on concrete signals: the interior
  indices that exceed both neighbours by at least the threshold.
\<close>

definition local_peaks :: "real list \<Rightarrow> real \<Rightarrow> nat list" where
  "local_peaks x p =
     filter (\<lambda>i. x ! (i - 1) < x ! i \<and> x ! (i + 1) < x ! i \<and>
                 p \<le> x ! i - max (x ! (i - 1)) (x ! (i + 1)))
       [1..<length x - 1]"


subsection \<open>Sample texts\<close>

text \<open>
  Reconstructed files in the simplified layout the reader expects, as \<^verbatim>\<open>readlines\<close>
  returns them. \<open>sample_endpoints\<close> has spacing type 1 and the axis bounds 0 and 10;
  \<open>sample_short\<close> announces three points and holds three values; \<open>sample_excess\<close>
  announces two points and holds six values; in \<open>sample_late\<close> the dataset starts at
  line 95 and a blank line precedes the values.
\<close>

definition sample_endpoints :: "string list" where
  "sample_endpoints =
     [''    -1\<newline>'', ''    58\<newline>'', ''reconstructed FRF\<newline>'',
      ''  2  3  1  0.0  1.0e+01  0\<newline>'', ''a\<newline>'', ''b\<newline>'', ''c\<newline>'', ''d\<newline>'',
      '' 1.0e+00 2.0e+00 3.0e+00 4.0e+00\<newline>'', '' 5.0e+00 6.0e+00\<newline>'', ''    -1\<newline>'']"

definition sample_short :: "string list" where
  "sample_short =
     [''    -1\<newline>'', ''    58\<newline>'', ''reconstructed FRF\<newline>'',
      ''  2  3  0  0.0  5.0e-01  0\<newline>'', ''a\<newline>'', ''b\<newline>'', ''c\<newline>'', ''d\<newline>'',
      '' 1.0e+00 2.0e+00\<newline>'', '' 3.0e+00\<newline>'', ''    -1\<newline>'']"

definition sample_excess :: "string list" where
  "sample_excess =
     [''    -1\<newline>'', ''    58\<newline>'', ''reconstructed FRF\<newline>'',
      ''  2  2  0\<newline>'', ''a\<newline>'', ''b\<newline>'', ''c\<newline>'', ''d\<newline>'',
      '' 1.0e+00 2.0e+00 3.0e+00\<newline>'', '' 4.0e+00 5.0e+00 6.0e+00\<newline>'', ''    -1\<newline>'']"

definition sample_late :: "string list" where
  "sample_late = replicate 95 ''x\<newline>'' @
     [''    -1\<newline>'', ''    58\<newline>'', ''header\<newline>'', ''  2  2  0  0.0  1.0  0\<newline>'',
      ''a\<newline>'', ''b\<newline>'', ''c\<newline>'', ''d\<newline>'', ''\<newline>'',
      '' 1.0e+00 2.0e+00\<newline>'', '' 3.0e+00 4.0e+00\<newline>'', ''    -1\<newline>'']"

section \<open>Properties\<close>

subsection \<open>The block filter\<close>

lemma skip_block_no_sentinel:
  "i \<le> j \<Longrightarrow> j < skip_block lines i \<Longrightarrow> j < length lines \<and> strip (lines ! j) \<noteq> ''-1''"
proof (induction lines i rule: skip_block.induct)
  case (1 lines i)
  show ?case
  proof (cases "i < length lines \<and> strip (lines ! i) \<noteq> ''-1''")
    case True
    then have eq: "skip_block lines i = skip_block lines (i + 1)"
      by (subst skip_block.simps) simp
    show ?thesis
    proof (cases "j = i")
      case True
      with \<open>i < length lines \<and> strip (lines ! i) \<noteq> ''-1''\<close> show ?thesis by simp
    next
      case False
      with "1.prems" have "i + 1 \<le> j" by simp
      moreover from "1.prems" eq have "j < skip_block lines (i + 1)" by simp
      ultimately show ?thesis using "1.IH" True by simp
    qed
  next
    case False
    then have "skip_block lines i = i" by (subst skip_block.simps) auto
    with "1.prems" show ?thesis by simp
  qed
qed

lemma skip_block_stop:
  "skip_block lines i < length lines \<Longrightarrow> strip (lines ! skip_block lines i) = ''-1''"
proof (induction lines i rule: skip_block.induct)
  case (1 lines i)
  show ?case
  proof (cases "i < length lines \<and> strip (lines ! i) \<noteq> ''-1''")
    case True
    then have eq: "skip_block lines i = skip_block lines (i + 1)"
      by (subst skip_block.simps) simp
    with "1.IH" "1.prems" True show ?thesis by simp
  next
    case False
    then have "skip_block lines i = i" by (subst skip_block.simps) auto
    with "1.prems" False show ?thesis by simp
  qed
qed

lemma in_151_block_iff:
  "in_151_block lines k =
     (\<exists>m. 0 < m \<and> m \<le> k \<and> strip (lines ! m) = ''151'' \<and> strip (lines ! (m - 1)) = ''-1'' \<and>
        (\<forall>j. m < j \<and> j < k \<longrightarrow> strip (lines ! j) \<noteq> ''-1''))"
  unfolding in_151_block_def by (auto simp: Suc_le_eq less_Suc_eq_le)

lemma settled_not_in_block:
  assumes "settled lines i" "i < length lines"
    and "\<not> (strip (lines ! i) = ''151'' \<and> i > 0 \<and> strip (lines ! (i - 1)) = ''-1'')"
  shows "\<not> in_151_block lines i"
proof
  assume "in_151_block lines i"
  then obtain m where m: "0 < m" "m \<le> i" "strip (lines ! m) = ''151''" "strip (lines ! (m - 1)) = ''-1''"
    and nos: "\<forall>j. m < j \<and> j < i \<longrightarrow> strip (lines ! j) \<noteq> ''-1''"
    unfolding in_151_block_iff by blast
  from m assms(3) have "m \<noteq> i" by auto
  with m have "m < i" by simp
  with assms(1,2) m obtain j where "m < j" "j < i" "strip (lines ! j) = ''-1''"
    unfolding settled_def by (metis less_trans)
  with nos show False by blast
qed

lemma settled_step:
  assumes "settled lines i"
    and "\<not> (strip (lines ! i) = ''151'' \<and> i > 0 \<and> strip (lines ! (i - 1)) = ''-1'')"
  shows "settled lines (i + 1)"
  unfolding settled_def
proof (intro allI impI)
  fix m
  assume m: "0 < m \<and> m < i + 1 \<and> m < length lines \<and> strip (lines ! m) = ''151'' \<and> strip (lines ! (m - 1)) = ''-1''"
  with assms(2) have "m \<noteq> i" by auto
  with m have "m < i" by simp
  with assms(1) m obtain j where "m < j" "j < i" "j < length lines" "strip (lines ! j) = ''-1''"
    unfolding settled_def by blast
  then show "\<exists>j>m. j < i + 1 \<and> j < length lines \<and> strip (lines ! j) = ''-1''"
    by (metis less_SucI Suc_eq_plus1)
qed

lemma settled_skip:
  assumes "settled lines i" "i < length lines"
    and op: "strip (lines ! i) = ''151''" "i > 0" "strip (lines ! (i - 1)) = ''-1''"
    and inside: "skip_block lines (i + 1) + 1 < length lines"
  shows "settled lines (skip_block lines (i + 1) + 1)"
  unfolding settled_def
proof (intro allI impI)
  let ?c = "skip_block lines (i + 1)"
  fix m
  assume m: "0 < m \<and> m < ?c + 1 \<and> m < length lines \<and> strip (lines ! m) = ''151'' \<and> strip (lines ! (m - 1)) = ''-1''"
  have ge: "i + 1 \<le> ?c" by (rule skip_block_ge)
  from inside have c: "?c < length lines" by simp
  then have stop: "strip (lines ! ?c) = ''-1''" by (rule skip_block_stop)
  consider "m < i" | "m = i" | "i < m"  by linarith
  then show "\<exists>j>m. j < ?c + 1 \<and> j < length lines \<and> strip (lines ! j) = ''-1''"
  proof cases
    case 1
    with assms(1) m obtain j where "m < j" "j < i" "j < length lines" "strip (lines ! j) = ''-1''"
      unfolding settled_def by blast
    moreover from this ge have "j < ?c + 1" by simp
    ultimately show ?thesis by blast
  next
    case 2
    with c ge stop show ?thesis by (intro exI[of _ ?c]) simp
  next
    case 3
    from m have prev: "strip (lines ! (m - 1)) = ''-1''" by simp
    from op(1) prev have "m - 1 \<noteq> i" by auto
    with 3 have "i + 1 \<le> m - 1" by simp
    moreover from m have "m - 1 < ?c" by linarith
    ultimately have "strip (lines ! (m - 1)) \<noteq> ''-1''"
      using skip_block_no_sentinel by blast
    with prev show ?thesis by simp
  qed
qed

lemma skipped_in_block:
  assumes op: "strip (lines ! i) = ''151''" "i > 0" "strip (lines ! (i - 1)) = ''-1''"
    and "i \<le> k" "k \<le> skip_block lines (i + 1)"
  shows "in_151_block lines k"
  unfolding in_151_block_iff
proof (intro exI[of _ i] conjI allI impI)
  fix j assume "i < j \<and> j < k"
  with assms(5) have "i + 1 \<le> j" "j < skip_block lines (i + 1)" by simp_all
  then show "strip (lines ! j) \<noteq> ''-1''" using skip_block_no_sentinel by blast
qed (use assms in simp_all)

lemma filter_151_blocks_gen:
  "(i < length lines \<longrightarrow> settled lines i) \<Longrightarrow>
   filter_151_blocks lines i out =
     out @ map ((!) lines) (filter (\<lambda>k. \<not> in_151_block lines k) [i..<length lines])"
proof (induction lines i out rule: filter_151_blocks.induct)
  case (1 lines i out)
  let ?keep = "\<lambda>k. \<not> in_151_block lines k"
  show ?case
  proof (cases "i < length lines")
    case False
    then show ?thesis by (subst filter_151_blocks.simps) simp
  next
    case True
    with "1.prems" have st: "settled lines i" by simp
    show ?thesis
    proof (cases "strip (lines ! i) = ''151'' \<and> i > 0 \<and> strip (lines ! (i - 1)) = ''-1''")
      case op: True
      let ?c = "skip_block lines (i + 1)"
      have ge: "i + 1 \<le> ?c" by (rule skip_block_ge)
      have nxt: "?c + 1 < length lines \<longrightarrow> settled lines (?c + 1)"
        using settled_skip[OF st True] op by blast
      have unf: "filter_151_blocks lines i out = filter_151_blocks lines (?c + 1) out"
        using True op by (subst filter_151_blocks.simps) simp
      have ih: "filter_151_blocks lines (?c + 1) out = out @ map ((!) lines) (filter ?keep [?c + 1..<length lines])"
        using "1.IH"(1)[OF True op nxt] .
      have drop: "filter ?keep [i..<length lines] = filter ?keep [?c + 1..<length lines]"
      proof (cases "?c + 1 \<le> length lines")
        case le: True
        from ge have "[i..<length lines] = [i..<?c + 1] @ [?c + 1..<length lines]"
          using le by (metis upt_add_eq_append le_add1 le_Suc_ex Suc_eq_plus1 trans_le_add1 add_leD1)
        moreover have "filter ?keep [i..<?c + 1] = []"
          using skipped_in_block[of lines i] op by (auto simp: filter_empty_conv)
        ultimately show ?thesis by simp
      next
        case gt: False
        then have a: "[?c + 1..<length lines] = []" by simp
        have b: "filter ?keep [i..<length lines] = []"
          using skipped_in_block[of lines i] op gt by (auto simp: filter_empty_conv)
        show ?thesis by (simp only: a b filter.simps)
      qed
      from unf ih drop show ?thesis by simp
    next
      case nop: False
      have unf: "filter_151_blocks lines i out = filter_151_blocks lines (i + 1) (out @ [lines ! i])"
        using True nop by (subst filter_151_blocks.simps) auto
      have nxt: "i + 1 < length lines \<longrightarrow> settled lines (i + 1)"
        using settled_step[OF st nop] by simp
      have ih: "filter_151_blocks lines (i + 1) (out @ [lines ! i]) =
          (out @ [lines ! i]) @ map ((!) lines) (filter ?keep [i + 1..<length lines])"
        using "1.IH"(2)[OF True nop nxt] .
      have keep: "?keep i" using settled_not_in_block[OF st True nop] .
      from True have "[i..<length lines] = i # [i + 1..<length lines]"
        by (simp add: upt_conv_Cons)
      with unf ih keep show ?thesis by simp
    qed
  qed
qed

text \<open>
  The filter in closed form: the lines kept are the lines outside the blocks in the sense
  of \<open>in_151_block\<close>, in their order.
\<close>

lemma filter_151_blocks_closed_form:
  "filter_151_blocks lines 0 [] =
     map ((!) lines) (filter (\<lambda>k. \<not> in_151_block lines k) [0..<length lines])"
  using filter_151_blocks_gen[of 0 lines "[]"] by (simp add: settled_def)

text \<open>
  On a text with a \<^verbatim>\<open>151\<close> block followed by a \<^verbatim>\<open>58\<close> block, the marker, the body and
  the closing line \<^verbatim>\<open>-1\<close> of the first block are gone: two of the three lines \<^verbatim>\<open>-1\<close>
  remain.
\<close>

lemma filter_151_blocks_closing_line:
  "filter_151_blocks
     [''    -1\<newline>'', ''   151\<newline>'', ''x\<newline>'', ''    -1\<newline>'', ''    -1\<newline>'', ''    58\<newline>''] 0 [] =
     [''    -1\<newline>'', ''    -1\<newline>'', ''    58\<newline>'']"
  by code_simp

lemma in_151_body_block: "in_151_body lines k \<Longrightarrow> in_151_block lines k"
  unfolding in_151_body_def in_151_block_def by auto

lemma in_151_body_iff:
  "in_151_body lines k =
     (\<exists>m. 0 < m \<and> m \<le> k \<and> strip (lines ! m) = ''151'' \<and> strip (lines ! (m - 1)) = ''-1'' \<and>
        (\<forall>j. m < j \<and> j \<le> k \<longrightarrow> strip (lines ! j) \<noteq> ''-1''))"
proof -
  have a: "(1 \<le> m \<and> m < Suc k) = (0 < m \<and> m \<le> k)" for m by auto
  have b: "(Suc m \<le> j \<and> j < Suc k) = (m < j \<and> j \<le> k)" for m j by auto
  show ?thesis
    unfolding in_151_body_def set_upt Bex_def Ball_def atLeastLessThan_iff a b
    by (simp only: conj_assoc)
qed

lemma in_151_block_not_body_closing:
  assumes "in_151_block lines k" "\<not> in_151_body lines k"
  shows "strip (lines ! k) = ''-1''"
proof -
  from assms(1) obtain m where m: "0 < m" "m \<le> k" "strip (lines ! m) = ''151''"
      "strip (lines ! (m - 1)) = ''-1''"
    and nos: "\<forall>j. m < j \<and> j < k \<longrightarrow> strip (lines ! j) \<noteq> ''-1''"
    unfolding in_151_block_iff by blast
  from assms(2) m obtain j where j: "m < j" "j \<le> k" "strip (lines ! j) = ''-1''"
    unfolding in_151_body_iff by blast
  with nos have "j = k" by (metis le_neq_implies_less)
  with j show ?thesis by simp
qed

text \<open>
  Claim C1, as the code has it. The marker the filter looks for is the line \<^verbatim>\<open>151\<close> (not
  \<^verbatim>\<open>158\<close>) right after a line \<^verbatim>\<open>-1\<close>. For every text, the output is made of lines of
  the text in their order. The marker line and every line after it before the next line
  \<^verbatim>\<open>-1\<close> are left out. Every line that is neither one of these nor the line \<^verbatim>\<open>-1\<close>
  closing such a run is kept, the line \<^verbatim>\<open>-1\<close> before the marker among them. The only
  lines of which nothing is stated are lines \<^verbatim>\<open>-1\<close>, each the first one after a marker:
  the statement does not say whether the line that closes a stripped block is kept.
\<close>

theorem filter_151_blocks_strips_marked_blocks:
  "\<exists>keep. filter_151_blocks lines 0 [] = map ((!) lines) (filter keep [0..<length lines]) \<and>
     (\<forall>k < length lines. (in_151_body lines k \<longrightarrow> \<not> keep k) \<and>
                          (\<not> in_151_block lines k \<longrightarrow> keep k) \<and>
                          (in_151_block lines k \<and> \<not> in_151_body lines k \<longrightarrow>
                             strip (lines ! k) = ''-1''))"
proof (intro exI conjI allI impI)
  show "filter_151_blocks lines 0 [] =
      map ((!) lines) (filter (\<lambda>k. \<not> in_151_block lines k) [0..<length lines])"
    by (rule filter_151_blocks_closed_form)
next
  fix k assume "in_151_body lines k"
  then show "\<not> \<not> in_151_block lines k" by (simp add: in_151_body_block)
next
  fix k assume "in_151_block lines k \<and> \<not> in_151_body lines k"
  then show "strip (lines ! k) = ''-1''" by (blast intro: in_151_block_not_body_closing)
qed

text \<open>
  On a text with a \<^verbatim>\<open>151\<close> block followed by a \<^verbatim>\<open>58\<close> block: lines 1 and 2 are marker
  and body and are left out, line 3 is the line \<^verbatim>\<open>-1\<close> that closes the block, and the
  lines 0, 4 and 5 are kept.
\<close>

theorem filter_151_blocks_strips_marked_blocks_witness:
  "map (in_151_body
     [''    -1\<newline>'', ''   151\<newline>'', ''x\<newline>'', ''    -1\<newline>'', ''    -1\<newline>'', ''    58\<newline>''])
     [0, 1, 2, 3, 4, 5] = [False, True, True, False, False, False] \<and>
   map (in_151_block
     [''    -1\<newline>'', ''   151\<newline>'', ''x\<newline>'', ''    -1\<newline>'', ''    -1\<newline>'', ''    58\<newline>''])
     [0, 1, 2, 3, 4, 5] = [False, True, True, True, False, False] \<and>
   strip ([''    -1\<newline>'', ''   151\<newline>'', ''x\<newline>'', ''    -1\<newline>'', ''    -1\<newline>'', ''    58\<newline>''] ! 3) = ''-1'' \<and>
   (\<exists>keep. filter_151_blocks
       [''    -1\<newline>'', ''   151\<newline>'', ''x\<newline>'', ''    -1\<newline>'', ''    -1\<newline>'', ''    58\<newline>''] 0 [] =
     map ((!) [''    -1\<newline>'', ''   151\<newline>'', ''x\<newline>'', ''    -1\<newline>'', ''    -1\<newline>'', ''    58\<newline>''])
       (filter keep [0, 1, 2, 3, 4, 5]) \<and>
     keep 0 \<and> \<not> keep 1 \<and> \<not> keep 2 \<and> keep 4 \<and> keep 5)"
proof -
  let ?L = "[''    -1\<newline>'', ''   151\<newline>'', ''x\<newline>'', ''    -1\<newline>'', ''    -1\<newline>'', ''    58\<newline>'']"
  have b: "map (in_151_body ?L) [0, 1, 2, 3, 4, 5] = [False, True, True, False, False, False]"
    by code_simp
  have m: "map (in_151_block ?L) [0, 1, 2, 3, 4, 5] = [False, True, True, True, False, False]"
    by code_simp
  have u: "[0..<length ?L] = [0, 1, 2, 3, 4, 5]" by code_simp
  from filter_151_blocks_strips_marked_blocks[of ?L] obtain keep where
    o: "filter_151_blocks ?L 0 [] = map ((!) ?L) (filter keep [0..<length ?L])" and
    k: "\<forall>k < length ?L. (in_151_body ?L k \<longrightarrow> \<not> keep k) \<and> (\<not> in_151_block ?L k \<longrightarrow> keep k) \<and>
          (in_151_block ?L k \<and> \<not> in_151_body ?L k \<longrightarrow> strip (?L ! k) = ''-1'')"
    by blast
  from k[rule_format, of 0] m have k0: "keep 0" by simp
  from k[rule_format, of 1] b have k1: "\<not> keep 1" by simp
  from k[rule_format, of 2] b have k2: "\<not> keep 2" by simp
  from k[rule_format, of 4] m have k4: "keep 4" by simp
  from k[rule_format, of 5] m have k5: "keep 5" by simp
  from k[rule_format, of 3] b m have c3: "strip (?L ! 3) = ''-1''" by simp
  from o have o': "filter_151_blocks ?L 0 [] = map ((!) ?L) (filter keep [0, 1, 2, 3, 4, 5])"
    unfolding u .
  from b m c3 o' k0 k1 k2 k4 k5 show ?thesis by blast
qed

text \<open>The claim as stated fails: a block opened by a line \<^verbatim>\<open>158\<close> is kept whole.\<close>

theorem filter_151_blocks_marker_counterexample:
  "filter_151_blocks [''    -1\<newline>'', ''   158\<newline>'', ''x\<newline>'', ''    -1\<newline>''] 0 [] =
     [''    -1\<newline>'', ''   158\<newline>'', ''x\<newline>'', ''    -1\<newline>'']"
  by code_simp

subsection \<open>The custom reader\<close>

lemma length_reshape2: "length (reshape2 vs) = length vs div 2"
  by (induction vs rule: reshape2.induct) auto

lemma reshape2_rows: "row \<in> set (reshape2 vs) \<Longrightarrow> length row = 2"
  by (induction vs rule: reshape2.induct) auto

lemma concat_reshape2: "even (length vs) \<Longrightarrow> concat (reshape2 vs) = vs"
  by (induction vs rule: reshape2.induct) auto

lemma length_pad_values:
  "0 \<le> num_points \<Longrightarrow>
   length (take (nat (num_points * 2)) (pad_values num_points data_values)) = nat (num_points * 2)"
  by (auto simp: pad_values_def min_def)


lemma length_frequency_axis:
  "length (frequency_axis spacing_type x_min x_inc num_points) = nat num_points"
  by (simp add: frequency_axis_def linspace_def arange_axis_def)

lemma linspace_nth:
  "k < num \<Longrightarrow> linspace start stop num ! k = start + real k * ((stop - start) / real (num - 1))"
  by (auto simp: linspace_def)

lemma linspace_last:
  assumes "2 \<le> num" shows "last (linspace start stop num) = stop"
proof -
  from assms have ne: "linspace start stop num \<noteq> []" by (auto simp: linspace_def)
  from assms have len: "length (linspace start stop num) = num" by (simp add: linspace_def)
  have "last (linspace start stop num) = linspace start stop num ! (num - 1)"
    using ne len by (simp add: last_conv_nth)
  also have "\<dots> = start + real (num - 1) * ((stop - start) / real (num - 1))"
    using assms by (intro linspace_nth) simp
  also have "\<dots> = stop" using assms by simp
  finally show ?thesis .
qed

lemma arange_axis_nth: "k < num \<Longrightarrow> arange_axis start step num ! k = start + real k * step"
  by (simp add: arange_axis_def)

lemma parse_Inr_iff:
  "parse_reconstructed_unv to_int to_float raw = Inr r \<longleftrightarrow>
     (\<exists>i data_type num_points spacing_type x_min x_inc start.
        find_dataset_58 (map rstrip_crlf raw) 0 = Inr i \<and>
        read_header to_int to_float (map rstrip_crlf raw) i =
          Inr (data_type, num_points, spacing_type, x_min, x_inc) \<and>
        find_data_start to_float (map rstrip_crlf raw) (i + 2 + 4) = Inr start \<and>
        build_result data_type num_points spacing_type x_min x_inc
          (collect_values to_float (map rstrip_crlf raw) num_points start [] 0) = Inr r)"
  unfolding parse_reconstructed_unv_def Let_def
  by (auto split: sum.splits prod.splits)

text \<open>
  Claim C2. For every text that the reader accepts, the frequency axis has \<open>num_points\<close>
  entries. With spacing type 1 and \<open>x_increment_or_max > x_min + 1\<close> it is
  \<^verbatim>\<open>linspace(x_min, x_increment_or_max, num_points)\<close>: entry \<open>k\<close> is
  \<open>x_min + k * (x_increment_or_max - x_min) / (num_points - 1)\<close>, the first entry is
  \<open>x_min\<close> and, from two points on, the last is \<open>x_increment_or_max\<close>. In every other case
  entry \<open>k\<close> is \<open>x_min + k * x_increment_or_max\<close>. The header values are those of the
  characteristic line after the marker.
\<close>

theorem parse_frequency_axis:
  assumes "parse_reconstructed_unv to_int to_float raw = Inr r"
  shows "\<exists>i data_type num_points spacing_type x_min x_increment_or_max xs.
      find_dataset_58 (map rstrip_crlf raw) 0 = Inr i \<and>
      read_header to_int to_float (map rstrip_crlf raw) i =
        Inr (data_type, num_points, spacing_type, x_min, x_increment_or_max) \<and>
      r ''x'' = Some (VArr (RealVec xs)) \<and> length xs = nat num_points \<and> 1 \<le> num_points \<and>
      (if spacing_type = 1 \<and> x_increment_or_max > x_min + 1
       then (\<forall>k < length xs.
               xs ! k = x_min + real k * ((x_increment_or_max - x_min) / real (nat num_points - 1))) \<and>
            hd xs = x_min \<and> (2 \<le> num_points \<longrightarrow> last xs = x_increment_or_max)
       else (\<forall>k < length xs. xs ! k = x_min + real k * x_increment_or_max))"
proof -
  from assms obtain i data_type num_points spacing_type x_min x_inc start where
    m: "find_dataset_58 (map rstrip_crlf raw) 0 = Inr i" and
    h: "read_header to_int to_float (map rstrip_crlf raw) i =
          Inr (data_type, num_points, spacing_type, x_min, x_inc)" and
    b: "build_result data_type num_points spacing_type x_min x_inc
          (collect_values to_float (map rstrip_crlf raw) num_points start [] 0) = Inr r"
    unfolding parse_Inr_iff by blast
  let ?xs = "frequency_axis spacing_type x_min x_inc num_points"
  from b have pos: "1 \<le> num_points" and x: "r ''x'' = Some (VArr (RealVec ?xs))"
    by (auto simp: build_result_def split: if_splits)
  have len: "length ?xs = nat num_points" by (rule length_frequency_axis)
  have shape: "if spacing_type = 1 \<and> x_inc > x_min + 1
       then (\<forall>k < length ?xs.
               ?xs ! k = x_min + real k * ((x_inc - x_min) / real (nat num_points - 1))) \<and>
            hd ?xs = x_min \<and> (2 \<le> num_points \<longrightarrow> last ?xs = x_inc)
       else (\<forall>k < length ?xs. ?xs ! k = x_min + real k * x_inc)"
  proof (cases "spacing_type = 1 \<and> x_inc > x_min + 1")
    case True
    then have eq: "?xs = linspace x_min x_inc (nat num_points)"
      by (simp add: frequency_axis_def)
    have "\<forall>k < length ?xs. ?xs ! k = x_min + real k * ((x_inc - x_min) / real (nat num_points - 1))"
      using len by (simp add: eq linspace_nth)
    moreover have "hd ?xs = x_min"
      using pos by (auto simp: eq linspace_def upt_conv_Cons)
    moreover have "2 \<le> num_points \<longrightarrow> last ?xs = x_inc"
      by (simp add: eq linspace_last)
    ultimately show ?thesis using True by simp
  next
    case False
    then have eq: "?xs = arange_axis x_min x_inc (nat num_points)"
      by (auto simp: frequency_axis_def)
    have a: "\<forall>k < length ?xs. ?xs ! k = x_min + real k * x_inc"
      using len by (simp add: eq arange_axis_nth)
    show ?thesis by (subst if_not_P[OF False]) (rule a)
  qed
  from m h x len pos shape show ?thesis by blast
qed

text \<open>On \<open>sample_endpoints\<close> the axis is 0, 5, 10.\<close>

theorem parse_frequency_axis_witness:
  "\<exists>r. parse_reconstructed_unv decimal_int decimal_float sample_endpoints = Inr r \<and>
       r ''x'' = Some (VArr (RealVec [0, 5, 10])) \<and>
       (\<exists>i data_type num_points spacing_type x_min x_increment_or_max xs.
          find_dataset_58 (map rstrip_crlf sample_endpoints) 0 = Inr i \<and>
          read_header decimal_int decimal_float (map rstrip_crlf sample_endpoints) i =
            Inr (data_type, num_points, spacing_type, x_min, x_increment_or_max) \<and>
          r ''x'' = Some (VArr (RealVec xs)) \<and> length xs = nat num_points \<and> 1 \<le> num_points \<and>
          (if spacing_type = 1 \<and> x_increment_or_max > x_min + 1
           then (\<forall>k < length xs.
                   xs ! k = x_min + real k * ((x_increment_or_max - x_min) / real (nat num_points - 1))) \<and>
                hd xs = x_min \<and> (2 \<le> num_points \<longrightarrow> last xs = x_increment_or_max)
           else (\<forall>k < length xs. xs ! k = x_min + real k * x_increment_or_max)))"
proof -
  have "\<not> isl (parse_reconstructed_unv decimal_int decimal_float sample_endpoints)"
    unfolding sample_endpoints_def by code_simp
  then obtain r where r: "parse_reconstructed_unv decimal_int decimal_float sample_endpoints = Inr r"
    by (cases "parse_reconstructed_unv decimal_int decimal_float sample_endpoints") auto
  have "(case parse_reconstructed_unv decimal_int decimal_float sample_endpoints of
           Inr r \<Rightarrow> r ''x'' | Inl e \<Rightarrow> None) = Some (VArr (RealVec [0, 5, 10]))"
    unfolding sample_endpoints_def by code_simp
  with r have x: "r ''x'' = Some (VArr (RealVec [0, 5, 10]))" by simp
  from parse_frequency_axis[OF r] r x show ?thesis by blast
qed

text \<open>
  The scan for the first data line, in closed form: the lines examined are those of index
  \<open>s\<close> up to \<open>max s 100\<close> (and before the end of the text), and the result is the first
  data line among them.
\<close>

lemma find_data_start_window:
  "find_data_start to_float lines s =
     (case List.find (\<lambda>j. is_data_line to_float (strip (lines ! j)))
             [s..<min (length lines) (max (s + 1) 101)] of
        Some j \<Rightarrow> Inr j
      | None \<Rightarrow> if max (s + 1) 101 \<le> length lines then Inl Data_Not_In_First_100
                else Inl Data_Section_Not_Located)"
proof (induction to_float lines s rule: find_data_start.induct)
  case (1 to_float lines i)
  let ?P = "\<lambda>j. is_data_line to_float (strip (lines ! j))"
  show ?case
  proof (cases "i < length lines")
    case False
    then have a: "find_data_start to_float lines i = Inl Data_Section_Not_Located"
      by (subst find_data_start.simps) simp
    from False have b: "[i..<min (length lines) (max (i + 1) 101)] = []" by simp
    from False have c: "\<not> max (i + 1) 101 \<le> length lines" by simp
    show ?thesis by (simp only: a b c find.simps option.case if_False)
  next
    case True
    then have cons: "[i..<min (length lines) (max (i + 1) 101)] =
        i # [i + 1..<min (length lines) (max (i + 1) 101)]"
      by (simp add: upt_conv_Cons)
    show ?thesis
    proof (cases "?P i")
      case data: True
      with True have "find_data_start to_float lines i = Inr i"
        by (subst find_data_start.simps) simp
      with data cons show ?thesis by simp
    next
      case nodata: False
      show ?thesis
      proof (cases "i + 1 > 100")
        case far: True
        with True nodata have "find_data_start to_float lines i = Inl Data_Not_In_First_100"
          by (subst find_data_start.simps) simp
        moreover from far have "[i + 1..<min (length lines) (max (i + 1) 101)] = []" by simp
        moreover from far True have "max (i + 1) 101 \<le> length lines" by simp
        ultimately show ?thesis using nodata cons by simp
      next
        case near: False
        with True nodata have "find_data_start to_float lines i = find_data_start to_float lines (i + 1)"
          by (subst find_data_start.simps) simp
        moreover from near have "max (i + 1 + 1) 101 = max (i + 1) 101" by simp
        ultimately show ?thesis using "1.IH"[OF True nodata near] nodata cons by simp
      qed
    qed
  qed
qed

text \<open>
  Claim C3, as the code has it. After the marker (found at \<open>i - 2\<close>), the two header
  lines and the four axis lines, the reader examines the line of index \<open>i + 6\<close> and then
  the following lines as long as their index in the whole text is at most 100: the
  bound of the scan is an absolute line number, not a count of lines from the scan start.
  The payload starts at the first examined line that holds an \<^verbatim>\<open>e\<close> or \<^verbatim>\<open>E\<close> and whose
  first two tokens are accepted by \<^verbatim>\<open>float\<close>. When no examined line is such a line the
  reader fails: with "Could not find data section in first 100 lines" when the index
  passes 100 inside the text, with "Could not locate data section" when the text ends
  first.
\<close>

theorem parse_data_start_window:
  assumes "find_dataset_58 (map rstrip_crlf raw) 0 = Inr i"
    and "read_header to_int to_float (map rstrip_crlf raw) i =
           Inr (data_type, num_points, spacing_type, x_min, x_increment_or_max)"
  shows "case List.find (\<lambda>j. is_data_line to_float (strip (map rstrip_crlf raw ! j)))
                [i + 6..<min (length raw) (max (i + 7) 101)] of
           Some start \<Rightarrow>
             parse_reconstructed_unv to_int to_float raw =
               build_result data_type num_points spacing_type x_min x_increment_or_max
                 (collect_values to_float (map rstrip_crlf raw) num_points start [] 0)
         | None \<Rightarrow>
             parse_reconstructed_unv to_int to_float raw =
               Inl (if max (i + 7) 101 \<le> length raw then Data_Not_In_First_100
                    else Data_Section_Not_Located)"
proof -
  let ?lines = "map rstrip_crlf raw"
  have w: "find_data_start to_float ?lines (i + 6) =
     (case List.find (\<lambda>j. is_data_line to_float (strip (?lines ! j)))
             [i + 6..<min (length raw) (max (i + 7) 101)] of
        Some j \<Rightarrow> Inr j
      | None \<Rightarrow> if max (i + 7) 101 \<le> length raw then Inl Data_Not_In_First_100
                else Inl Data_Section_Not_Located)"
  proof -
    have e1: "i + 6 + 1 = i + 7" by simp
    have e2: "length ?lines = length raw" by simp
    show ?thesis using find_data_start_window[of to_float ?lines "i + 6"] unfolding e1 e2 .
  qed
  have p: "parse_reconstructed_unv to_int to_float raw =
      (case find_data_start to_float ?lines (i + 6) of Inl e \<Rightarrow> Inl e
       | Inr start \<Rightarrow> build_result data_type num_points spacing_type x_min x_increment_or_max
                 (collect_values to_float ?lines num_points start [] 0))"
  proof -
    have e3: "i + 2 + 4 = i + 6" by simp
    have "parse_reconstructed_unv to_int to_float raw =
      (case find_data_start to_float ?lines (i + 2 + 4) of Inl e \<Rightarrow> Inl e
       | Inr start \<Rightarrow> build_result data_type num_points spacing_type x_min x_increment_or_max
                 (collect_values to_float ?lines num_points start [] 0))"
      unfolding parse_reconstructed_unv_def Let_def
      by (simp only: assms sum.case prod.case)
    then show ?thesis by (subst (asm) e3)
  qed
  show ?thesis unfolding p w by (simp split: option.splits)
qed

text \<open>On \<open>sample_short\<close> the marker is at line 0 and the payload starts at line 8.\<close>

theorem parse_data_start_window_witness:
  "find_dataset_58 (map rstrip_crlf sample_short) 0 = Inr 2 \<and>
   read_header decimal_int decimal_float (map rstrip_crlf sample_short) 2 = Inr (2, 3, 0, 0, 1 / 2) \<and>
   List.find (\<lambda>j. is_data_line decimal_float (strip (map rstrip_crlf sample_short ! j)))
     [2 + 6..<min (length sample_short) (max (2 + 7) 101)] = Some 8 \<and>
   parse_reconstructed_unv decimal_int decimal_float sample_short =
     build_result 2 3 0 0 (1 / 2)
       (collect_values decimal_float (map rstrip_crlf sample_short) 3 8 [] 0)"
proof -
  have m: "find_dataset_58 (map rstrip_crlf sample_short) 0 = Inr 2"
    unfolding sample_short_def by code_simp
  have h: "read_header decimal_int decimal_float (map rstrip_crlf sample_short) 2 = Inr (2, 3, 0, 0, 1 / 2)"
    unfolding sample_short_def by code_simp
  have f: "List.find (\<lambda>j. is_data_line decimal_float (strip (map rstrip_crlf sample_short ! j)))
     [2 + 6..<min (length sample_short) (max (2 + 7) 101)] = Some 8"
    unfolding sample_short_def by code_simp
  from parse_data_start_window[OF m h] f m h show ?thesis by simp
qed

text \<open>
  The claim as stated fails on \<open>sample_late\<close>: the scan starts at line 103, the values
  start at line 104, the second line of the scan, and the reader gives up with
  "Could not find data section in first 100 lines".
\<close>

theorem parse_data_start_window_counterexample:
  "find_dataset_58 (map rstrip_crlf sample_late) 0 = Inr 97 \<and>
   is_data_line decimal_float (strip (map rstrip_crlf sample_late ! 104)) \<and>
   parse_reconstructed_unv decimal_int decimal_float sample_late = Inl Data_Not_In_First_100"
proof -
  have a: "find_dataset_58 (map rstrip_crlf sample_late) 0 = Inr 97 \<and>
      is_data_line decimal_float (strip (map rstrip_crlf sample_late ! 104))"
    unfolding sample_late_def by code_simp
  have "(case parse_reconstructed_unv decimal_int decimal_float sample_late of
           Inl e \<Rightarrow> Some e | Inr r \<Rightarrow> None) = Some Data_Not_In_First_100"
    unfolding sample_late_def by code_simp
  then have "parse_reconstructed_unv decimal_int decimal_float sample_late = Inl Data_Not_In_First_100"
    by (simp split: sum.splits)
  with a show ?thesis by simp
qed



text \<open>
  Claim C9. Every record the reader returns has \<open>num_points \<ge> 1\<close>, an axis of
  \<open>num_points\<close> entries and a table of \<open>num_points\<close> rows of two values; the table, read
  row by row, is the first \<open>num_points * 2\<close> of the collected values padded with zeros,
  so that values in excess are dropped.
\<close>

theorem parse_shape_invariant:
  assumes "parse_reconstructed_unv to_int to_float raw = Inr r"
  shows "\<exists>num_points xs rows i data_type spacing_type x_min x_increment_or_max start.
      r ''num_points'' = Some (VInt num_points) \<and> 1 \<le> num_points \<and>
      r ''x'' = Some (VArr (RealVec xs)) \<and> length xs = nat num_points \<and>
      r ''data'' = Some (VArr (RealMat 2 rows)) \<and> length rows = nat num_points \<and>
      list_all (\<lambda>row. length row = 2) rows \<and>
      find_dataset_58 (map rstrip_crlf raw) 0 = Inr i \<and>
      read_header to_int to_float (map rstrip_crlf raw) i =
        Inr (data_type, num_points, spacing_type, x_min, x_increment_or_max) \<and>
      find_data_start to_float (map rstrip_crlf raw) (i + 2 + 4) = Inr start \<and>
      concat rows = take (nat (num_points * 2))
        (pad_values num_points (collect_values to_float (map rstrip_crlf raw) num_points start [] 0))"
proof -
  from assms obtain i data_type num_points spacing_type x_min x_inc start where
    m: "find_dataset_58 (map rstrip_crlf raw) 0 = Inr i" and
    h: "read_header to_int to_float (map rstrip_crlf raw) i =
          Inr (data_type, num_points, spacing_type, x_min, x_inc)" and
    s: "find_data_start to_float (map rstrip_crlf raw) (i + 2 + 4) = Inr start" and
    b: "build_result data_type num_points spacing_type x_min x_inc
          (collect_values to_float (map rstrip_crlf raw) num_points start [] 0) = Inr r"
    unfolding parse_Inr_iff by blast
  let ?vals = "collect_values to_float (map rstrip_crlf raw) num_points start [] 0"
  let ?flat = "take (nat (num_points * 2)) (pad_values num_points ?vals)"
  let ?xs = "frequency_axis spacing_type x_min x_inc num_points"
  from b have pos: "1 \<le> num_points"
    and x: "r ''x'' = Some (VArr (RealVec ?xs))"
    and d: "r ''data'' = Some (VArr (RealMat 2 (reshape2 ?flat)))"
    and n: "r ''num_points'' = Some (VInt num_points)"
    by (auto simp: build_result_def split: if_splits)
  have lenf: "length ?flat = nat (num_points * 2)" using pos by (intro length_pad_values) simp
  then have ev: "even (length ?flat)" using pos by (simp add: nat_mult_distrib)
  have "length (reshape2 ?flat) = nat num_points"
    using lenf pos by (simp add: length_reshape2 nat_mult_distrib)
  moreover have "list_all (\<lambda>row. length row = 2) (reshape2 ?flat)"
    by (simp add: list_all_iff reshape2_rows)
  moreover have "concat (reshape2 ?flat) = ?flat" using ev by (rule concat_reshape2)
  moreover have "length ?xs = nat num_points" by (rule length_frequency_axis)
  ultimately show ?thesis using m h s x d n pos by blast
qed

text \<open>On \<open>sample_excess\<close> six values are collected and the first four are kept.\<close>

theorem parse_shape_invariant_witness:
  "\<exists>r. parse_reconstructed_unv decimal_int decimal_float sample_excess = Inr r \<and>
       r ''data'' = Some (VArr (RealMat 2 [[1, 2], [3, 4]])) \<and>
       r ''x'' = Some (VArr (RealVec [0, 1])) \<and>
       collect_values decimal_float (map rstrip_crlf sample_excess) 2 8 [] 0 = [1, 2, 3, 4, 5, 6] \<and>
       (\<exists>num_points xs rows i data_type spacing_type x_min x_increment_or_max start.
          r ''num_points'' = Some (VInt num_points) \<and> 1 \<le> num_points \<and>
          r ''x'' = Some (VArr (RealVec xs)) \<and> length xs = nat num_points \<and>
          r ''data'' = Some (VArr (RealMat 2 rows)) \<and> length rows = nat num_points \<and>
          list_all (\<lambda>row. length row = 2) rows \<and>
          find_dataset_58 (map rstrip_crlf sample_excess) 0 = Inr i \<and>
          read_header decimal_int decimal_float (map rstrip_crlf sample_excess) i =
            Inr (data_type, num_points, spacing_type, x_min, x_increment_or_max) \<and>
          find_data_start decimal_float (map rstrip_crlf sample_excess) (i + 2 + 4) = Inr start \<and>
          concat rows = take (nat (num_points * 2))
            (pad_values num_points
               (collect_values decimal_float (map rstrip_crlf sample_excess) num_points start [] 0)))"
proof -
  have "\<not> isl (parse_reconstructed_unv decimal_int decimal_float sample_excess)"
    unfolding sample_excess_def by code_simp
  then obtain r where r: "parse_reconstructed_unv decimal_int decimal_float sample_excess = Inr r"
    by (cases "parse_reconstructed_unv decimal_int decimal_float sample_excess") auto
  have "(case parse_reconstructed_unv decimal_int decimal_float sample_excess of
           Inr r \<Rightarrow> (r ''data'', r ''x'') | Inl e \<Rightarrow> (None, None)) =
        (Some (VArr (RealMat 2 [[1, 2], [3, 4]])), Some (VArr (RealVec [0, 1])))"
    unfolding sample_excess_def by code_simp
  with r have d: "r ''data'' = Some (VArr (RealMat 2 [[1, 2], [3, 4]]))"
    and x: "r ''x'' = Some (VArr (RealVec [0, 1]))" by simp_all
  have c: "collect_values decimal_float (map rstrip_crlf sample_excess) 2 8 [] 0 = [1, 2, 3, 4, 5, 6]"
    unfolding sample_excess_def by code_simp
  from parse_shape_invariant[OF r] r d x c show ?thesis by blast
qed


subsection \<open>The export transformation\<close>

text \<open>
  Claim C5, as the code has it. For a record of type 58 of a \<^verbatim>\<open>.unv\<close> file whose data is a
  table of at least two columns, the record written is a copy in which the data is a table
  of two columns, the linear magnitudes \<open>sqrt (re\<^sup>2 + im\<^sup>2)\<close> in column 0 and zeros in
  column 1, with \<^verbatim>\<open>num_values_per_point\<close> 2, \<^verbatim>\<open>data_type\<close> 2, \<^verbatim>\<open>z_def_type\<close> 0 and
  \<^verbatim>\<open>ylabel\<close> \<^verbatim>\<open>AMPLITUDE\<close>; the axis and every other entry are unchanged. A record of
  type 58 whose data is one-dimensional, or a table of fewer than two columns, is written
  unchanged. For another type, or another kind of file, nothing is written.
\<close>

theorem save_selected_record_amplitude:
  "(testlab_file_type = ''unv'' \<and> original_record ''type'' = Some (VInt 58) \<and>
    original_record ''data'' = Some (VArr (RealMat c rows)) \<and> 2 \<le> c \<longrightarrow>
      (\<exists>new_record. save_selected_record testlab_file_type original_record = Inr (Some new_record) \<and>
         new_record ''data'' =
           Some (VArr (RealMat 2 (map (\<lambda>r. [sqrt ((r ! 0)\<^sup>2 + (r ! 1)\<^sup>2), 0]) rows))) \<and>
         new_record ''data_type'' = Some (VInt 2) \<and>
         new_record ''z_def_type'' = Some (VInt 0) \<and>
         new_record ''num_values_per_point'' = Some (VInt 2) \<and>
         new_record ''ylabel'' = Some (VStr ''AMPLITUDE'') \<and>
         new_record ''x'' = original_record ''x'' \<and>
         (\<forall>key. key \<notin> {''data'', ''data_type'', ''z_def_type'', ''num_values_per_point'', ''ylabel''}
            \<longrightarrow> new_record key = original_record key))) \<and>
   (testlab_file_type = ''unv'' \<and> original_record ''type'' = Some (VInt 58) \<and>
    ((original_record ''data'' = Some (VArr (RealMat c rows)) \<and> c < 2) \<or>
     original_record ''data'' = Some (VArr (RealVec v)) \<or>
     original_record ''data'' = Some (VArr (ComplexVec zs))) \<longrightarrow>
      save_selected_record testlab_file_type original_record = Inr (Some original_record)) \<and>
   (testlab_file_type \<noteq> ''unv'' \<or>
    (original_record ''type'' \<noteq> Some (VInt 58) \<and> original_record ''type'' \<noteq> Some (VReal 58)) \<longrightarrow>
      save_selected_record testlab_file_type original_record = Inr None)"
proof -
  have mag: "cmod (complex_of_real a + \<i> * complex_of_real b) = sqrt (a\<^sup>2 + b\<^sup>2)" for a b
    by (simp add: cmod_def)
  show ?thesis
    by (auto simp: save_selected_record_def linear_magnitude_def mag comp_def)
qed

text \<open>A two-column table of two rows, and a one-dimensional record.\<close>

theorem save_selected_record_amplitude_witness:
  "save_selected_record ''unv''
     [''type'' \<mapsto> VInt 58, ''x'' \<mapsto> VArr (RealVec [0, 1]),
      ''data'' \<mapsto> VArr (RealMat 2 [[0, 2], [1, 0]])] =
   Inr (Some
     [''type'' \<mapsto> VInt 58, ''x'' \<mapsto> VArr (RealVec [0, 1]),
      ''data'' \<mapsto> VArr (RealMat 2 [[2, 0], [1, 0]]),
      ''data_type'' \<mapsto> VInt 2, ''z_def_type'' \<mapsto> VInt 0,
      ''num_values_per_point'' \<mapsto> VInt 2, ''ylabel'' \<mapsto> VStr ''AMPLITUDE'']) \<and>
   save_selected_record ''unv''
     [''type'' \<mapsto> VInt 58, ''x'' \<mapsto> VArr (RealVec [0, 1]), ''data'' \<mapsto> VArr (RealVec [3, 4])] =
   Inr (Some [''type'' \<mapsto> VInt 58, ''x'' \<mapsto> VArr (RealVec [0, 1]), ''data'' \<mapsto> VArr (RealVec [3, 4])])"
proof -
  let ?r = "[''type'' \<mapsto> VInt 58, ''x'' \<mapsto> VArr (RealVec [0, 1]),
      ''data'' \<mapsto> VArr (RealMat 2 [[0, 2], [1, 0]])]"
  let ?p = "[''type'' \<mapsto> VInt 58, ''x'' \<mapsto> VArr (RealVec [0, 1]), ''data'' \<mapsto> VArr (RealVec [3, 4])]"
  have "save_selected_record ''unv'' ?p = Inr (Some ?p)"
    using save_selected_record_amplitude[of "''unv''" ?p 0 "[]" "[3, 4]" "[]"] by simp
  moreover have "save_selected_record ''unv'' ?r = Inr (Some
     [''type'' \<mapsto> VInt 58, ''x'' \<mapsto> VArr (RealVec [0, 1]),
      ''data'' \<mapsto> VArr (RealMat 2 [[2, 0], [1, 0]]),
      ''data_type'' \<mapsto> VInt 2, ''z_def_type'' \<mapsto> VInt 0,
      ''num_values_per_point'' \<mapsto> VInt 2, ''ylabel'' \<mapsto> VStr ''AMPLITUDE''])"
    by (simp add: save_selected_record_def linear_magnitude_def)
  ultimately show ?thesis by (intro conjI)
qed

text \<open>
  The claim as stated fails: the table written has two columns, and the count of values
  per point is 2, not 1.
\<close>

theorem save_selected_record_counterexample:
  "save_selected_record ''unv''
     [''type'' \<mapsto> VInt 58, ''x'' \<mapsto> VArr (RealVec [0, 1]),
      ''data'' \<mapsto> VArr (RealMat 2 [[0, 2], [1, 0]])] =
   Inr (Some
     [''type'' \<mapsto> VInt 58, ''x'' \<mapsto> VArr (RealVec [0, 1]),
      ''data'' \<mapsto> VArr (RealMat 2 [[2, 0], [1, 0]]),
      ''data_type'' \<mapsto> VInt 2, ''z_def_type'' \<mapsto> VInt 0,
      ''num_values_per_point'' \<mapsto> VInt 2, ''ylabel'' \<mapsto> VStr ''AMPLITUDE''])"
  by (simp add: save_selected_record_def linear_magnitude_def)

subsection \<open>Interpolation\<close>

lemma lin_interp_exact:
  "sorted (map fst ps) \<Longrightarrow> distinct (map fst ps) \<Longrightarrow> (a, b) \<in> set ps \<Longrightarrow> lin_interp ps a = b"
proof (induction ps a rule: lin_interp.induct)
  case (1 x0 y0 x1 y1 ps t)
  from "1.prems"(1) have le: "x0 \<le> x1" by simp
  from "1.prems"(2) have ne: "x0 \<noteq> x1" by auto
  consider "(t, b) = (x0, y0)" | "(t, b) = (x1, y1)" | "(t, b) \<in> set ps"
    using "1.prems"(3) by auto
  then show ?case
  proof cases
    case 1
    with le show ?thesis by simp
  next
    case 2
    with ne show ?thesis by simp
  next
    case 3
    then have "t \<in> set (map fst ps)" by force
    with "1.prems"(1,2) have "x1 \<le> t" "x1 \<noteq> t" by auto
    then have "\<not> t \<le> x1" by simp
    moreover have "lin_interp ((x1, y1) # ps) t = b"
      using "1.IH" "1.prems" 3 \<open>\<not> t \<le> x1\<close> by simp
    ultimately show ?thesis by simp
  qed
next
  case (2 x0 y0 t)
  then show ?case by simp
next
  case (3 t)
  then show ?case by simp
qed

lemma sorted_hd_Min: "sorted xs \<Longrightarrow> xs \<noteq> [] \<Longrightarrow> hd xs = Min (set xs)"
  by (cases xs) (auto intro: Min_eqI[symmetric])

lemma sorted_last_Max: "sorted xs \<Longrightarrow> xs \<noteq> [] \<Longrightarrow> last xs = Max (set xs)"
proof (induction xs)
  case Nil
  then show ?case by simp
next
  case (Cons x xs)
  show ?case
  proof (cases "xs = []")
    case True
    then show ?thesis by simp
  next
    case False
    with Cons have "last xs = Max (set xs)" by simp
    moreover from Cons.prems False have "x \<le> Max (set xs)"
      by (metis List.finite_set Max_ge last_in_set order_trans set_empty sorted_simps(2) calculation)
    ultimately show ?thesis using False by (simp add: max_def)
  qed
qed

lemma sorted_pairs_props:
  assumes "length x = length y"
  shows "length (sort_key fst (zip x y)) = length x"
    and "set (map fst (sort_key fst (zip x y))) = set x"
proof -
  show "length (sort_key fst (zip x y)) = length x" using assms by simp
  have "set (map fst (sort_key fst (zip x y))) = fst ` set (zip x y)" by simp
  also have "\<dots> = set (map fst (zip x y))" by simp
  also have "\<dots> = set x" using assms by (simp only: map_fst_zip)
  finally show "set (map fst (sort_key fst (zip x y))) = set x" .
qed

lemma sorted_pairs_bounds:
  assumes "length x = length y" "x \<noteq> []"
  shows "fst (hd (sort_key fst (zip x y))) = Min (set x)"
    and "fst (last (sort_key fst (zip x y))) = Max (set x)"
proof -
  let ?ps = "sort_key fst (zip x y)"
  have s: "sorted (map fst ?ps)" by simp
  have "length ?ps = length x" using assms(1) by (rule sorted_pairs_props)
  with assms(2) have ne: "?ps \<noteq> []" by (metis length_0_conv)
  have st: "set (map fst ?ps) = set x" using assms(1) by (rule sorted_pairs_props)
  have "fst (hd ?ps) = hd (map fst ?ps)" using ne by (simp add: hd_map)
  also have "\<dots> = Min (set (map fst ?ps))" using s ne by (intro sorted_hd_Min) simp_all
  finally show "fst (hd ?ps) = Min (set x)" using st by simp
  have "fst (last ?ps) = last (map fst ?ps)" using ne by (simp add: last_map)
  also have "\<dots> = Max (set (map fst ?ps))" using s ne by (intro sorted_last_Max) simp_all
  finally show "fst (last ?ps) = Max (set x)" using st by simp
qed

lemma interp1d_outside:
  assumes "length x = length y" "x \<noteq> []" "t < Min (set x) \<or> Max (set x) < t"
  shows "interp1d x y t = 0"
  using assms sorted_pairs_bounds[OF assms(1,2)] by (auto simp: interp1d_def Let_def)

lemma interp1d_exact:
  assumes "length x = length y" "distinct x" "k < length x"
  shows "interp1d x y (x ! k) = y ! k"
proof -
  let ?ps = "sort_key fst (zip x y)"
  have s: "sorted (map fst ?ps)" by simp
  have "set (map fst ?ps) = set x" using assms(1) by (rule sorted_pairs_props)
  moreover have "length (map fst ?ps) = length x" using assms(1) by simp
  ultimately have "card (set (map fst ?ps)) = length (map fst ?ps)"
    using assms(2) by (simp only: distinct_card)
  then have d: "distinct (map fst ?ps)" by (rule card_distinct)
  have mem: "(x ! k, y ! k) \<in> set ?ps" using assms(1,3) by (auto simp: set_zip)
  from assms have xne: "x \<noteq> []" by auto
  have "length ?ps = length x" using assms(1) by (rule sorted_pairs_props)
  with xne have ne: "?ps \<noteq> []" by (metis length_0_conv)
  have b: "Min (set x) \<le> x ! k" "x ! k \<le> Max (set x)" using assms(3) by simp_all
  have "interp1d x y (x ! k) = lin_interp ?ps (x ! k)"
    using ne b sorted_pairs_bounds[OF assms(1) xne] by (simp add: interp1d_def Let_def)
  also have "\<dots> = y ! k" using s d mem by (rule lin_interp_exact)
  finally show ?thesis .
qed

text \<open>
  Claim C6, for source frequencies that are pairwise distinct, each with its value: the
  result has the length of the target axis; a target frequency below the least or above
  the greatest source frequency yields exactly 0; a target frequency equal to a source
  frequency yields that sample's complex value.
\<close>

theorem interpolate_to_common_grid_contract:
  assumes "length source_values = length source_frequencies"
    and "distinct source_frequencies"
  shows "length (interpolate_to_common_grid source_frequencies source_values target_frequencies) =
           length target_frequencies \<and>
         (\<forall>j < length target_frequencies.
            source_frequencies \<noteq> [] \<and>
            (target_frequencies ! j < Min (set source_frequencies) \<or>
             Max (set source_frequencies) < target_frequencies ! j) \<longrightarrow>
            interpolate_to_common_grid source_frequencies source_values target_frequencies ! j = 0) \<and>
         (\<forall>j < length target_frequencies. \<forall>k < length source_frequencies.
            target_frequencies ! j = source_frequencies ! k \<longrightarrow>
            interpolate_to_common_grid source_frequencies source_values target_frequencies ! j =
              source_values ! k)"
proof -
  let ?x = source_frequencies and ?y = source_values and ?t = target_frequencies
  have lr: "length ?x = length (map Re ?y)" and li: "length ?x = length (map Im ?y)"
    using assms(1) by simp_all
  have nth: "interpolate_to_common_grid ?x ?y ?t ! j =
      complex_of_real (interp1d ?x (map Re ?y) (?t ! j)) +
      \<i> * complex_of_real (interp1d ?x (map Im ?y) (?t ! j))" if "j < length ?t" for j
    using that by (simp add: interpolate_to_common_grid_def Let_def)
  have out: "interpolate_to_common_grid ?x ?y ?t ! j = 0"
    if "j < length ?t" "?x \<noteq> []" "?t ! j < Min (set ?x) \<or> Max (set ?x) < ?t ! j" for j
    using that nth[OF that(1)] interp1d_outside[OF lr that(2,3)] interp1d_outside[OF li that(2,3)]
    by simp
  have exact: "interpolate_to_common_grid ?x ?y ?t ! j = ?y ! k"
    if "j < length ?t" "k < length ?x" "?t ! j = ?x ! k" for j k
  proof -
    have "interp1d ?x (map Re ?y) (?t ! j) = Re (?y ! k)"
      using interp1d_exact[OF lr assms(2) that(2)] that(2,3) assms(1) by simp
    moreover have "interp1d ?x (map Im ?y) (?t ! j) = Im (?y ! k)"
      using interp1d_exact[OF li assms(2) that(2)] that(2,3) assms(1) by simp
    ultimately show ?thesis using nth[OF that(1)] by (simp add: complex_eq_iff)
  qed
  have "length (interpolate_to_common_grid ?x ?y ?t) = length ?t"
    by (simp add: interpolate_to_common_grid_def Let_def)
  with out exact show ?thesis by blast
qed

text \<open>
  A source on 10, 100, 50 (unsorted) read at 5, 10, 30, 50, 100 and 150: the ends are
  filled with 0, the samples are met exactly, and 30 lies halfway between 1 and 5.
\<close>

theorem interpolate_to_common_grid_contract_witness:
  "length [1, Complex 3 1, 5 :: complex] = length [10, 100, 50 :: real] \<and>
   distinct [10, 100, 50 :: real] \<and>
   length (interpolate_to_common_grid [10, 100, 50] [1, Complex 3 1, 5] [5, 10, 30, 50, 100, 150]) = 6 \<and>
   interpolate_to_common_grid [10, 100, 50] [1, Complex 3 1, 5] [5, 10, 30, 50, 100, 150] ! 0 = 0 \<and>
   interpolate_to_common_grid [10, 100, 50] [1, Complex 3 1, 5] [5, 10, 30, 50, 100, 150] ! 5 = 0 \<and>
   interpolate_to_common_grid [10, 100, 50] [1, Complex 3 1, 5] [5, 10, 30, 50, 100, 150] ! 3 = 5 \<and>
   interpolate_to_common_grid [10, 100, 50] [1, Complex 3 1, 5] [5, 10, 30, 50, 100, 150] ! 4 = Complex 3 1 \<and>
   interpolate_to_common_grid [10, 100, 50] [1, Complex 3 1, 5] [5, 10, 30, 50, 100, 150] ! 2 = 3"
proof -
  let ?x = "[10, 100, 50 :: real]" and ?y = "[1, Complex 3 1, 5 :: complex]"
  let ?t = "[5, 10, 30, 50, 100, 150 :: real]"
  have l: "length ?y = length ?x" by simp
  have d: "distinct ?x" by simp
  note c = interpolate_to_common_grid_contract[OF l d, of ?t]
  note len = c[THEN conjunct1]
  note out = c[THEN conjunct2, THEN conjunct1, rule_format]
  note ex = c[THEN conjunct2, THEN conjunct2, rule_format]
  have c1: "length (interpolate_to_common_grid ?x ?y ?t) = 6" using len by simp
  have a0: "interpolate_to_common_grid ?x ?y ?t ! 0 = 0" using out[of 0] by simp
  have a5: "interpolate_to_common_grid ?x ?y ?t ! 5 = 0" using out[of 5] by simp
  have a3: "interpolate_to_common_grid ?x ?y ?t ! 3 = 5" using ex[of 3 2] by simp
  have a4: "interpolate_to_common_grid ?x ?y ?t ! 4 = Complex 3 1" using ex[of 4 1] by simp
  have a2: "interpolate_to_common_grid ?x ?y ?t ! 2 = 3"
    by (simp add: interpolate_to_common_grid_def interp1d_def Let_def complex_eq_iff)
  from l d c1 a0 a5 a3 a4 a2 show ?thesis by (intro conjI)
qed

text \<open>
  The claim as stated, for every source axis, fails when a frequency occurs twice with
  two values: the single result at that frequency cannot equal both samples, whatever
  the routine returns there.
\<close>

theorem interpolate_to_common_grid_counterexample:
  "\<not> (\<forall>j < length [1 :: real]. \<forall>k < length [1, 1 :: real].
        [1 :: real] ! j = [1, 1] ! k \<longrightarrow>
        interpolate_to_common_grid [1, 1] [0, 1] [1] ! j = [0, 1] ! k)"
proof
  assume a: "\<forall>j < length [1 :: real]. \<forall>k < length [1, 1 :: real].
        [1 :: real] ! j = [1, 1] ! k \<longrightarrow>
        interpolate_to_common_grid [1, 1] [0, 1] [1] ! j = [0, 1] ! k"
  from a[rule_format, of 0 0] have "interpolate_to_common_grid [1, 1] [0, 1] [1] ! 0 = 0"
    by simp
  moreover from a[rule_format, of 0 1] have "interpolate_to_common_grid [1, 1] [0, 1] [1] ! 0 = 1"
    by simp
  ultimately show False by simp
qed

subsection \<open>The metrics\<close>

lemma argmin_props:
  "xs \<noteq> [] \<Longrightarrow> argmin xs < length xs \<and> (\<forall>x \<in> set xs. xs ! argmin xs \<le> x)"
  by (induction xs rule: argmin.induct) (auto simp: nth_Cons')

lemma argmin_Min: "xs \<noteq> [] \<Longrightarrow> xs ! argmin xs = Min (set xs)"
  using argmin_props[of xs] by (intro Min_eqI[symmetric]) auto

lemma nearest_peak_props:
  assumes "peaks_recon \<noteq> []"
  shows "nearest_peak freq peaks_recon p \<in> set peaks_recon"
    and "\<bar>freq ! nearest_peak freq peaks_recon p - freq ! p\<bar> =
           Min ((\<lambda>q. \<bar>freq ! q - freq ! p\<bar>) ` set peaks_recon)"
    and "map (\<lambda>q. \<bar>freq ! q - freq ! p\<bar>) peaks_recon !
           argmin (map (\<lambda>q. \<bar>freq ! q - freq ! p\<bar>) peaks_recon) =
         \<bar>freq ! nearest_peak freq peaks_recon p - freq ! p\<bar>"
proof -
  let ?d = "map (\<lambda>q. \<bar>freq ! q - freq ! p\<bar>) peaks_recon"
  from assms have ne: "?d \<noteq> []" by simp
  from argmin_props[OF ne] have lt: "argmin ?d < length peaks_recon" by simp
  then show "nearest_peak freq peaks_recon p \<in> set peaks_recon"
    by (simp add: nearest_peak_def)
  from lt show e: "?d ! argmin ?d = \<bar>freq ! nearest_peak freq peaks_recon p - freq ! p\<bar>"
    by (simp add: nearest_peak_def)
  from argmin_Min[OF ne] e
  show "\<bar>freq ! nearest_peak freq peaks_recon p - freq ! p\<bar> =
           Min ((\<lambda>q. \<bar>freq ! q - freq ! p\<bar>) ` set peaks_recon)"
    by simp
qed

lemma match_peaks_Inr:
  "match_peaks freq mag_orig mag_recon peaks_recon tol peaks_orig = Inr cs \<Longrightarrow>
   cs = map (\<lambda>p. compare_peaks (freq ! p) (mag_orig ! p)
                    (freq ! nearest_peak freq peaks_recon p)
                    (mag_recon ! nearest_peak freq peaks_recon p))
          (filter (\<lambda>p. peaks_recon \<noteq> [] \<and>
                        \<bar>freq ! nearest_peak freq peaks_recon p - freq ! p\<bar> < tol) peaks_orig)"
proof (induction peaks_orig arbitrary: cs)
  case Nil
  then show ?case by simp
next
  case (Cons p ps)
  show ?case
  proof (cases "peaks_recon = []")
    case True
    with Cons show ?thesis by (auto split: if_splits)
  next
    case False
    note e = nearest_peak_props(3)[OF False, of freq p]
    show ?thesis
    proof (cases "\<bar>freq ! nearest_peak freq peaks_recon p - freq ! p\<bar> < tol")
      case True
      with Cons.prems False e obtain cs' where
        r: "match_peaks freq mag_orig mag_recon peaks_recon tol ps = Inr cs'" and
        c: "cs = compare_peaks (freq ! p) (mag_orig ! p)
                    (freq ! nearest_peak freq peaks_recon p)
                    (mag_recon ! nearest_peak freq peaks_recon p) # cs'"
        by (auto simp: Let_def nearest_peak_def split: if_splits sum.splits)
      from Cons.IH[OF r] c True False show ?thesis by simp
    next
      case far: False
      with Cons.prems False e have "match_peaks freq mag_orig mag_recon peaks_recon tol ps = Inr cs"
        by (auto simp: Let_def split: if_splits sum.splits)
      from Cons.IH[OF this] far show ?thesis by simp
    qed
  qed
qed

lemma sum_list_all_equal:
  "\<forall>x \<in> set xs. x = (c::real) \<Longrightarrow> sum_list xs = real (length xs) * c"
  by (induction xs) (auto simp: algebra_simps)

lemma sum_squares_nonneg: "0 \<le> (\<Sum>t\<leftarrow>xs. (t - (m::real))\<^sup>2)"
  by (induction xs) auto

lemma sum_squares_zero_iff: "(\<Sum>t\<leftarrow>xs. (t - (m::real))\<^sup>2) = 0 \<longleftrightarrow> (\<forall>x \<in> set xs. x = m)"
proof (induction xs)
  case Nil
  then show ?case by simp
next
  case (Cons x xs)
  have "(x - m)\<^sup>2 + (\<Sum>t\<leftarrow>xs. (t - m)\<^sup>2) = 0 \<longleftrightarrow> (x - m)\<^sup>2 = 0 \<and> (\<Sum>t\<leftarrow>xs. (t - m)\<^sup>2) = 0"
    using sum_squares_nonneg[of m xs] by (intro add_nonneg_eq_0_iff) simp_all
  with Cons show ?case by simp
qed

lemma ss_tot_nonneg: "0 \<le> ss_tot xs"
  unfolding ss_tot_def by (rule sum_squares_nonneg)

lemma ss_tot_constant:
  assumes "\<forall>a \<in> set xs. \<forall>b \<in> set xs. a = b"
  shows "ss_tot xs = 0"
proof (cases xs)
  case Nil
  then show ?thesis by (simp add: ss_tot_def)
next
  case (Cons c ys)
  with assms have all: "\<forall>x \<in> set xs. x = c" by auto
  then have "sum_list xs = real (length xs) * c" by (rule sum_list_all_equal)
  with Cons have "np_mean xs = c" by (simp add: np_mean_def)
  with all show ?thesis unfolding ss_tot_def sum_squares_zero_iff by simp
qed

lemma ss_tot_positive:
  assumes "a \<in> set xs" "b \<in> set xs" "a \<noteq> b"
  shows "0 < ss_tot xs"
proof -
  from assms obtain x where x: "x \<in> set xs" "x \<noteq> np_mean xs" by metis
  then have "ss_tot xs \<noteq> 0" unfolding ss_tot_def sum_squares_zero_iff by blast
  with ss_tot_nonneg[of xs] show ?thesis by simp
qed

lemma ss_res_zero_iff:
  "length a = length b \<Longrightarrow> ss_res a b = 0 \<longleftrightarrow> a = b"
proof (induction a b rule: list_induct2)
  case Nil
  then show ?case by (simp add: ss_res_def)
next
  case (Cons x xs y ys)
  have nn: "0 \<le> ss_res xs ys" by (auto simp: ss_res_def intro!: sum_list_nonneg dest: set_zip_leftD)
  have "ss_res (x # xs) (y # ys) = (x - y)\<^sup>2 + ss_res xs ys" by (simp add: ss_res_def)
  moreover have "(x - y)\<^sup>2 + ss_res xs ys = 0 \<longleftrightarrow> x = y \<and> ss_res xs ys = 0"
    using nn by (simp add: add_nonneg_eq_0_iff)
  ultimately show ?case using Cons.IH by simp
qed

lemma compute_all_metrics_Inr:
  assumes "compute_all_metrics find_peaks freq y_original y_reconstructed = Inr res"
  shows "length y_original = length y_reconstructed" "y_original \<noteq> []" "freq \<noteq> []"
    and "R2 res = r2_score (map cmod y_original) (map cmod y_reconstructed)"
    and "n_peaks_original res =
           length (find_peaks (map cmod y_original) (0.1 * Max (set (map cmod y_original))))"
    and "n_peaks_reconstructed res =
           length (find_peaks (map cmod y_reconstructed) (0.1 * Max (set (map cmod y_original))))"
    and "n_peaks_matched res = length (peak_analysis res)"
    and "match_peaks freq (map cmod y_original) (map cmod y_reconstructed)
           (find_peaks (map cmod y_reconstructed) (0.1 * Max (set (map cmod y_original))))
           (0.05 * (last freq - hd freq))
           (find_peaks (map cmod y_original) (0.1 * Max (set (map cmod y_original)))) =
         Inr (peak_analysis res)"
  using assms
  by (auto simp: compute_all_metrics_def Let_def split: if_splits sum.splits)

lemmas metric_defs = compute_all_metrics_def Let_def r2_score_def ss_tot_def ss_res_def np_mean_def
  local_peaks_def vdot_def

text \<open>
  Claim C4, as the code has it. The entry \<^verbatim>\<open>R2\<close> is what \<^verbatim>\<open>r2_score\<close> returns and is never
  \<^verbatim>\<open>None\<close>. When the magnitude of the first signal is not constant, the total sum of
  squares is positive and \<^verbatim>\<open>R2\<close> is one minus the residual sum of squares over it, the
  first signal being the ground truth. When it is constant on two samples or more, \<^verbatim>\<open>R2\<close>
  is the number 1 if the two magnitudes agree everywhere and the number 0 otherwise; on
  a single sample it is NaN.
\<close>

theorem r2_always_a_number:
  assumes "compute_all_metrics find_peaks freq y_original y_reconstructed = Inr res"
    and "mag_orig = map cmod y_original"
    and "mag_recon = map cmod y_reconstructed"
  shows "R2 res \<noteq> Unavailable \<and>
         ((\<exists>a \<in> set mag_orig. \<exists>b \<in> set mag_orig. a \<noteq> b) \<longrightarrow>
            0 < ss_tot mag_orig \<and>
            R2 res = Number (1 - ss_res mag_orig mag_recon / ss_tot mag_orig)) \<and>
         ((\<forall>a \<in> set mag_orig. \<forall>b \<in> set mag_orig. a = b) \<and> 2 \<le> length mag_orig \<longrightarrow>
            R2 res = Number (if mag_recon = mag_orig then 1 else 0)) \<and>
         (length mag_orig < 2 \<longrightarrow> R2 res = NaN)"
proof -
  note f = compute_all_metrics_Inr[OF assms(1)]
  have r: "R2 res = r2_score mag_orig mag_recon" using f(4) assms(2,3) by simp
  have len: "length mag_orig = length mag_recon" using f(1) assms(2,3) by simp
  have 1: "R2 res \<noteq> Unavailable" unfolding r by (simp add: r2_score_def)
  have 2: "0 < ss_tot mag_orig \<and> R2 res = Number (1 - ss_res mag_orig mag_recon / ss_tot mag_orig)"
    if "\<exists>a \<in> set mag_orig. \<exists>b \<in> set mag_orig. a \<noteq> b"
  proof -
    from that obtain a b where ab: "a \<in> set mag_orig" "b \<in> set mag_orig" "a \<noteq> b" by blast
    then have pos: "0 < ss_tot mag_orig" by (rule ss_tot_positive)
    have "2 \<le> length mag_orig"
    proof (rule ccontr)
      assume "\<not> 2 \<le> length mag_orig"
      then have "length mag_orig \<le> 1" by simp
      then obtain c where "mag_orig = [] \<or> mag_orig = [c]"
        by (cases mag_orig) (auto simp: length_Suc_conv)
      with ab show False by auto
    qed
    with pos show ?thesis unfolding r by (simp add: r2_score_def)
  qed
  have 3: "R2 res = Number (if mag_recon = mag_orig then 1 else 0)"
    if "(\<forall>a \<in> set mag_orig. \<forall>b \<in> set mag_orig. a = b) \<and> 2 \<le> length mag_orig"
  proof -
    from that have z: "ss_tot mag_orig = 0" by (intro ss_tot_constant) blast
    have "ss_res mag_orig mag_recon = 0 \<longleftrightarrow> mag_recon = mag_orig"
      using ss_res_zero_iff[OF len] by auto
    with z that show ?thesis unfolding r by (simp add: r2_score_def)
  qed
  have 4: "length mag_orig < 2 \<longrightarrow> R2 res = NaN" unfolding r by (simp add: r2_score_def)
  from 1 2 3 4 show ?thesis by blast
qed

text \<open>Magnitudes 1, 2, 4 against 1, 2, 3: the score is \<open>1 - 1 / (14 / 3)\<close>.\<close>

theorem r2_always_a_number_witness:
  "\<exists>res. compute_all_metrics local_peaks [0, 1, 2] [1, 2, 4] [1, 2, 3] = Inr res \<and>
     R2 res = Number (11 / 14)"
proof -
  have "\<exists>res. compute_all_metrics local_peaks [0, 1, 2] [1, 2, 4] [1, 2, 3] = Inr res"
    by (simp add: metric_defs)
  then obtain res where res: "compute_all_metrics local_peaks [0, 1, 2] [1, 2, 4] [1, 2, 3] = Inr res"
    by blast
  have nc: "\<exists>a \<in> set (map cmod [1, 2, 4]). \<exists>b \<in> set (map cmod [1, 2, 4]). a \<noteq> b" by auto
  from r2_always_a_number[OF res refl refl, THEN conjunct2, THEN conjunct1, rule_format, OF nc]
  have "R2 res = Number (1 - ss_res (map cmod [1, 2, 4]) (map cmod [1, 2, 3]) /
                            ss_tot (map cmod [1, 2, 4]))" by simp
  also have "\<dots> = Number (11 / 14)"
    by (simp add: ss_res_def ss_tot_def np_mean_def power2_eq_square)
  finally show ?thesis using res by blast
qed

text \<open>
  The claim as stated fails: for the constant magnitude 1, 1, 1 against 1, 2, 3 the entry
  is the number 0.
\<close>

theorem r2_constant_reference_counterexample:
  "\<exists>res. compute_all_metrics local_peaks [0, 1, 2] [1, 1, 1] [1, 2, 3] = Inr res \<and>
     R2 res = Number 0"
  by (simp add: metric_defs)

lemma sorted_span:
  assumes "sorted (freq :: real list)" "freq \<noteq> []"
  shows "last freq - hd freq = Max (set freq) - Min (set freq)"
proof -
  from assms have "hd freq = Min (set freq)"
    by (cases freq) (auto intro: Min_eqI[symmetric])
  moreover have "last freq = Max (set freq)"
  proof (rule Max_eqI[symmetric])
    show "finite (set freq)" by simp
    show "last freq \<in> set freq" using assms(2) by simp
    fix y assume "y \<in> set freq"
    then obtain i where i: "i < length freq" "freq ! i = y" by (auto simp: in_set_conv_nth)
    with assms have "freq ! i \<le> freq ! (length freq - 1)"
      by (intro sorted_nth_mono) auto
    with i assms(2) show "y \<le> last freq" by (simp add: last_conv_nth)
  qed
  ultimately show ?thesis by simp
qed

text \<open>
  Claim C7, as the code has it. With the peaks the detector finds in the two magnitudes,
  every peak of the first signal is counted; it gives a pair exactly when the second
  signal has a peak and the least distance in frequency to one is strictly below the
  tolerance, and then the pair holds a peak of the second signal at that least distance;
  so a peak gives at most one pair. The tolerance is 0.05 times the last frequency minus
  the first; on an axis in increasing order that is 0.05 times the greatest minus the
  least.
\<close>

theorem peak_matching:
  assumes "compute_all_metrics find_peaks freq y_original y_reconstructed = Inr res"
    and "peaks_orig = find_peaks (map cmod y_original) (0.1 * Max (set (map cmod y_original)))"
    and "peaks_recon = find_peaks (map cmod y_reconstructed) (0.1 * Max (set (map cmod y_original)))"
    and "freq_tolerance = 0.05 * (last freq - hd freq)"
  shows "n_peaks_original res = length peaks_orig \<and>
         n_peaks_reconstructed res = length peaks_recon \<and>
         n_peaks_matched res = length (peak_analysis res) \<and>
         length (peak_analysis res) \<le> length peaks_orig \<and>
         map freq_original (peak_analysis res) =
           map ((!) freq)
             (filter (\<lambda>p. peaks_recon \<noteq> [] \<and>
                           Min ((\<lambda>q. \<bar>freq ! q - freq ! p\<bar>) ` set peaks_recon) < freq_tolerance)
                peaks_orig) \<and>
         (\<forall>c \<in> set (peak_analysis res). \<exists>q \<in> set peaks_recon.
            freq_reconstructed c = freq ! q \<and>
            \<bar>freq ! q - freq_original c\<bar> =
              Min ((\<lambda>q. \<bar>freq ! q - freq_original c\<bar>) ` set peaks_recon) \<and>
            \<bar>freq ! q - freq_original c\<bar> < freq_tolerance) \<and>
         (sorted freq \<longrightarrow> freq_tolerance = 0.05 * (Max (set freq) - Min (set freq)))"
proof -
  note f = compute_all_metrics_Inr[OF assms(1)]
  let ?near = "nearest_peak freq peaks_recon"
  let ?acc = "\<lambda>p. peaks_recon \<noteq> [] \<and> \<bar>freq ! ?near p - freq ! p\<bar> < freq_tolerance"
  let ?accM = "\<lambda>p. peaks_recon \<noteq> [] \<and>
      Min ((\<lambda>q. \<bar>freq ! q - freq ! p\<bar>) ` set peaks_recon) < freq_tolerance"
  let ?cmp = "\<lambda>p. compare_peaks (freq ! p) (map cmod y_original ! p)
                    (freq ! ?near p) (map cmod y_reconstructed ! ?near p)"
  have pa: "peak_analysis res = map ?cmp (filter ?acc peaks_orig)"
    using match_peaks_Inr[OF f(8)[folded assms(2,3,4)]] .
  have acc: "?acc = ?accM"
    by (rule ext) (auto simp: nearest_peak_props(2))
  have 1: "n_peaks_original res = length peaks_orig" using f(5) assms(2) by simp
  have 2: "n_peaks_reconstructed res = length peaks_recon" using f(6) assms(3) by simp
  have 4: "length (peak_analysis res) \<le> length peaks_orig" unfolding pa by simp
  have 5: "map freq_original (peak_analysis res) = map ((!) freq) (filter ?accM peaks_orig)"
    unfolding pa acc by (simp add: compare_peaks_def comp_def)
  have 6: "\<exists>q \<in> set peaks_recon.
            freq_reconstructed c = freq ! q \<and>
            \<bar>freq ! q - freq_original c\<bar> =
              Min ((\<lambda>q. \<bar>freq ! q - freq_original c\<bar>) ` set peaks_recon) \<and>
            \<bar>freq ! q - freq_original c\<bar> < freq_tolerance"
    if "c \<in> set (peak_analysis res)" for c
  proof -
    from that obtain p where p: "p \<in> set peaks_orig" "?acc p" "c = ?cmp p"
      unfolding pa by auto
    then have ne: "peaks_recon \<noteq> []" by simp
    have fo: "freq_original c = freq ! p" and fr: "freq_reconstructed c = freq ! ?near p"
      using p(3) by (simp_all add: compare_peaks_def)
    show ?thesis
      using nearest_peak_props(1,2)[OF ne, of freq p] p(2) fo fr
      by (intro bexI[of _ "?near p"]) auto
  qed
  have 7: "sorted freq \<longrightarrow> freq_tolerance = 0.05 * (Max (set freq) - Min (set freq))"
    using sorted_span[OF _ f(3)] assms(4) by simp
  from 1 2 f(7) 4 5 6 7 show ?thesis by blast
qed

text \<open>A peak at 10 in both signals on the axis 0, 10, 20: one pair.\<close>

theorem peak_matching_witness:
  "\<exists>res. compute_all_metrics local_peaks [0, 10, 20] [0, 2, 0] [0, 1, 0] = Inr res \<and>
     n_peaks_original res = 1 \<and> n_peaks_reconstructed res = 1 \<and> n_peaks_matched res = 1 \<and>
     map freq_original (peak_analysis res) = [10] \<and>
     map freq_reconstructed (peak_analysis res) = [10]"
proof -
  have "\<exists>res. compute_all_metrics local_peaks [0, 10, 20] [0, 2, 0] [0, 1, 0] = Inr res"
    by (simp add: metric_defs nearest_peak_def)
  then obtain res where res: "compute_all_metrics local_peaks [0, 10, 20] [0, 2, 0] [0, 1, 0] = Inr res"
    by blast
  have po: "[1] = local_peaks (map cmod [0, 2, 0]) (0.1 * Max (set (map cmod [0, 2, 0])))"
    by (simp add: local_peaks_def)
  have pr: "[1] = local_peaks (map cmod [0, 1, 0]) (0.1 * Max (set (map cmod [0, 2, 0])))"
    by (simp add: local_peaks_def)
  have tol: "(1::real) = 0.05 * (last [0, 10, 20] - hd [0, 10, 20])" by simp
  note t = peak_matching[OF res po pr tol]
  from t have 1: "n_peaks_original res = 1" and 2: "n_peaks_reconstructed res = 1"
    and 3: "n_peaks_matched res = length (peak_analysis res)" by simp_all
  from t have 5: "map freq_original (peak_analysis res) = [10]" by simp
  then have l: "length (peak_analysis res) = 1" by (metis length_map length_Cons list.size(3) One_nat_def)
  from t have "\<forall>c \<in> set (peak_analysis res). freq_reconstructed c = 10" by simp
  with l have 6: "map freq_reconstructed (peak_analysis res) = [10]"
    by (cases "peak_analysis res") auto
  from res 1 2 3 5 6 l show ?thesis by auto
qed

text \<open>
  The claim as stated fails on the decreasing axis 20, 10, 0 (a header with a negative
  step): both signals peak at 10, the distance 0 is below 0.05 times the span 20, and yet
  no pair is recorded, since the tolerance is \<open>0.05 * (0 - 20)\<close>.
\<close>

theorem peak_matching_counterexample:
  "(\<exists>res. compute_all_metrics local_peaks [20, 10, 0] [0, 2, 0] [0, 1, 0] = Inr res \<and>
      n_peaks_original res = 1 \<and> n_peaks_reconstructed res = 1 \<and> n_peaks_matched res = 0 \<and>
      peak_analysis res = []) \<and>
   \<bar>[20, 10, 0] ! 1 - [20, 10, 0 :: real] ! 1\<bar> < 0.05 * (Max (set [20, 10, 0]) - Min (set [20, 10, 0]))"
  by (simp add: metric_defs)

subsection \<open>The second column of a reconstructed record\<close>

lemma recon_complex_column:
  "map (\<lambda>r. r ! 0) rows = map (\<lambda>r. r ! 0) rows' \<Longrightarrow>
   recon_complex (RealMat c rows) = recon_complex (RealMat c rows')"
proof -
  assume "map (\<lambda>r. r ! 0) rows = map (\<lambda>r. r ! 0) rows'"
  then have "map (\<lambda>a. complex_of_real a + 0) (map (\<lambda>r. r ! 0) rows) =
             map (\<lambda>a. complex_of_real a + 0) (map (\<lambda>r. r ! 0) rows')" by simp
  then have "map (\<lambda>r. complex_of_real (r ! 0) + 0) rows = map (\<lambda>r. complex_of_real (r ! 0) + 0) rows'"
    by (simp add: comp_def)
  then show ?thesis by (simp add: recon_complex_def)
qed

text \<open>
  Claim C10. Two reconstructed records that differ only in the second column of their
  two-column table give the same result, whatever the Testlab record and the peak
  detector; the complex signal of such a record has the first column as real part and
  imaginary part 0.
\<close>

theorem second_column_ignored:
  assumes "recon_record ''data'' = Some (VArr (RealMat 2 rows))"
    and "recon_record' = recon_record(''data'' \<mapsto> VArr (RealMat 2 rows'))"
    and "map (\<lambda>r. r ! 0) rows' = map (\<lambda>r. r ! 0) rows"
  shows "calculate_validation_metrics find_peaks x_testlab y_testlab_raw recon_record' =
           calculate_validation_metrics find_peaks x_testlab y_testlab_raw recon_record \<and>
         (\<exists>y_recon_complex. recon_complex (RealMat 2 rows) = Inr y_recon_complex \<and>
            map Re y_recon_complex = map (\<lambda>r. r ! 0) rows \<and>
            list_all (\<lambda>z. Im z = 0) y_recon_complex)"
proof -
  have e: "recon_complex (RealMat 2 rows') = recon_complex (RealMat 2 rows)"
    using assms(3) by (rule recon_complex_column)
  have x: "recon_record' ''x'' = recon_record ''x''" using assms(2) by simp
  have d: "recon_record' ''data'' = Some (VArr (RealMat 2 rows'))" using assms(2) by simp
  have "calculate_validation_metrics find_peaks x_testlab y_testlab_raw recon_record' =
           calculate_validation_metrics find_peaks x_testlab y_testlab_raw recon_record"
    unfolding calculate_validation_metrics_def x d assms(1)
    by (simp add: e split: sum.splits option.splits pyval.splits ndarray.splits)
  moreover have "recon_complex (RealMat 2 rows) = Inr (map (\<lambda>r. complex_of_real (r ! 0) + 0) rows)"
    by (simp add: recon_complex_def)
  moreover have "map Re (map (\<lambda>r. complex_of_real (r ! 0) + 0) rows) = map (\<lambda>r. r ! 0) rows"
    by (simp add: comp_def)
  moreover have "list_all (\<lambda>z. Im z = 0) (map (\<lambda>r. complex_of_real (r ! 0) + 0) rows)"
    by (simp add: list_all_iff)
  ultimately show ?thesis by blast
qed

text \<open>Two records with the first column 0, 2, 0, against a flat Testlab signal.\<close>

theorem second_column_ignored_witness:
  "calculate_validation_metrics local_peaks [0, 20] (ComplexVec [1, 1])
     [''x'' \<mapsto> VArr (RealVec [0, 10, 20]), ''data'' \<mapsto> VArr (RealMat 2 [[0, 8], [2, 9], [0, 7]])] =
   calculate_validation_metrics local_peaks [0, 20] (ComplexVec [1, 1])
     [''x'' \<mapsto> VArr (RealVec [0, 10, 20]), ''data'' \<mapsto> VArr (RealMat 2 [[0, 3], [2, 4], [0, 5]])] \<and>
   \<not> isl (calculate_validation_metrics local_peaks [0, 20] (ComplexVec [1, 1])
     [''x'' \<mapsto> VArr (RealVec [0, 10, 20]), ''data'' \<mapsto> VArr (RealMat 2 [[0, 3], [2, 4], [0, 5]])])"
proof -
  let ?r = "[''x'' \<mapsto> VArr (RealVec [0, 10, 20]), ''data'' \<mapsto> VArr (RealMat 2 [[0, 3], [2, 4], [0, 5]])]"
  let ?r' = "[''x'' \<mapsto> VArr (RealVec [0, 10, 20]), ''data'' \<mapsto> VArr (RealMat 2 [[0, 8], [2, 9], [0, 7]])]"
  have a: "?r ''data'' = Some (VArr (RealMat 2 [[0, 3], [2, 4], [0, 5]]))" by simp
  have b: "?r' = ?r(''data'' \<mapsto> VArr (RealMat 2 [[0, 8], [2, 9], [0, 7]]))" by simp
  have c: "map (\<lambda>r. r ! 0) [[0, 8], [2, 9], [0, 7 :: real]] = map (\<lambda>r. r ! 0) [[0, 3], [2, 4], [0, 5]]"
    by simp
  note t = second_column_ignored[OF a b c, of local_peaks "[0, 20]" "ComplexVec [1, 1]"]
  have "\<not> isl (calculate_validation_metrics local_peaks [0, 20] (ComplexVec [1, 1]) ?r)"
    by (simp add: calculate_validation_metrics_def testlab_complex_def recon_complex_def
        interpolate_to_common_grid_def interp1d_def metric_defs nearest_peak_def)
  with t show ?thesis by simp
qed

end
